theory Spec2Isabelle
  imports Main "HOL-Library.List_Lexorder" "HOL-Library.Product_Lexorder"
begin

unbundle bit_operations_syntax

section \<open>Bytes and big-endian integers\<close>

text \<open>
  A byte is a natural number below 256; the unsigned integers of the program
  (\<open>uint8_t\<close>, \<open>uint16_t\<close>, \<open>uint32_t\<close>, \<open>unsigned int\<close>) are natural numbers, and
  the one place where 64-bit arithmetic wraps (the digest function) writes the
  reduction out.
\<close>

type_synonym byte = nat

fun be_bytes :: "nat \<Rightarrow> nat \<Rightarrow> byte list" where
  "be_bytes n w = (if n = 0 then [] else be_bytes (n - 1) (w div 256) @ [w mod 256])"

fun be_nat :: "byte list \<Rightarrow> nat \<Rightarrow> nat" where
  "be_nat [] acc = acc"
| "be_nat (b # bs) acc = be_nat bs (256 * acc + b)"

declare be_bytes.simps [simp del]

section \<open>The digest function: SHA-384\<close>

text \<open>
  The program obtains its digest from OpenSSL (\<open>EVP_get_digestbyname("sha384")\<close>) and
  drives it through \<open>EVP_DigestInit\<close>, \<open>EVP_DigestUpdate\<close> and \<open>EVP_DigestFinal_ex\<close>.
  A digest context is modelled by the bytes fed to it so far; finalising applies the hash
  to their concatenation. SHA-384 is written out after FIPS 180-4 on 64-bit words
  held as natural numbers.
\<close>

definition sha512_K :: "nat list" where
  "sha512_K = [
     0x428A2F98D728AE22, 0x7137449123EF65CD, 0xB5C0FBCFEC4D3B2F, 0xE9B5DBA58189DBBC,
     0x3956C25BF348B538, 0x59F111F1B605D019, 0x923F82A4AF194F9B, 0xAB1C5ED5DA6D8118,
     0xD807AA98A3030242, 0x12835B0145706FBE, 0x243185BE4EE4B28C, 0x550C7DC3D5FFB4E2,
     0x72BE5D74F27B896F, 0x80DEB1FE3B1696B1, 0x9BDC06A725C71235, 0xC19BF174CF692694,
     0xE49B69C19EF14AD2, 0xEFBE4786384F25E3, 0x0FC19DC68B8CD5B5, 0x240CA1CC77AC9C65,
     0x2DE92C6F592B0275, 0x4A7484AA6EA6E483, 0x5CB0A9DCBD41FBD4, 0x76F988DA831153B5,
     0x983E5152EE66DFAB, 0xA831C66D2DB43210, 0xB00327C898FB213F, 0xBF597FC7BEEF0EE4,
     0xC6E00BF33DA88FC2, 0xD5A79147930AA725, 0x06CA6351E003826F, 0x142929670A0E6E70,
     0x27B70A8546D22FFC, 0x2E1B21385C26C926, 0x4D2C6DFC5AC42AED, 0x53380D139D95B3DF,
     0x650A73548BAF63DE, 0x766A0ABB3C77B2A8, 0x81C2C92E47EDAEE6, 0x92722C851482353B,
     0xA2BFE8A14CF10364, 0xA81A664BBC423001, 0xC24B8B70D0F89791, 0xC76C51A30654BE30,
     0xD192E819D6EF5218, 0xD69906245565A910, 0xF40E35855771202A, 0x106AA07032BBD1B8,
     0x19A4C116B8D2D0C8, 0x1E376C085141AB53, 0x2748774CDF8EEB99, 0x34B0BCB5E19B48A8,
     0x391C0CB3C5C95A63, 0x4ED8AA4AE3418ACB, 0x5B9CCA4F7763E373, 0x682E6FF3D6B2B8A3,
     0x748F82EE5DEFB2FC, 0x78A5636F43172F60, 0x84C87814A1F0AB72, 0x8CC702081A6439EC,
     0x90BEFFFA23631E28, 0xA4506CEBDE82BDE9, 0xBEF9A3F7B2C67915, 0xC67178F2E372532B,
     0xCA273ECEEA26619C, 0xD186B8C721C0C207, 0xEADA7DD6CDE0EB1E, 0xF57D4F7FEE6ED178,
     0x06F067AA72176FBA, 0x0A637DC5A2C898A6, 0x113F9804BEF90DAE, 0x1B710B35131C471B,
     0x28DB77F523047D84, 0x32CAAB7B40C72493, 0x3C9EBE0A15C9BEBC, 0x431D67C49C100D4C,
     0x4CC5D4BECB3E42B6, 0x597F299CFC657E2A, 0x5FCB6FAB3AD6FAEC, 0x6C44198C4A475817]"

definition sha384_H0 :: "nat list" where
  "sha384_H0 = [
     0xCBBB9D5DC1059ED8, 0x629A292A367CD507, 0x9159015A3070DD17, 0x152FECD8F70E5939,
     0x67332667FFC00B31, 0x8EB44A8768581511, 0xDB0C2E0D64F98FA7, 0x47B5481DBEFA4FA4]"

definition trunc64 :: "nat \<Rightarrow> nat" where
  "trunc64 x = x mod 2 ^ 64"

definition rotr64 :: "nat \<Rightarrow> nat \<Rightarrow> nat" where
  "rotr64 n x = x div 2 ^ n + (x mod 2 ^ n) * 2 ^ (64 - n)"

definition not64 :: "nat \<Rightarrow> nat" where
  "not64 x = 2 ^ 64 - 1 - x"

definition ssig0 :: "nat \<Rightarrow> nat" where
  "ssig0 x = rotr64 1 x XOR rotr64 8 x XOR x div 2 ^ 7"

definition ssig1 :: "nat \<Rightarrow> nat" where
  "ssig1 x = rotr64 19 x XOR rotr64 61 x XOR x div 2 ^ 6"

definition bsig0 :: "nat \<Rightarrow> nat" where
  "bsig0 x = rotr64 28 x XOR rotr64 34 x XOR rotr64 39 x"

definition bsig1 :: "nat \<Rightarrow> nat" where
  "bsig1 x = rotr64 14 x XOR rotr64 18 x XOR rotr64 41 x"

definition ch64 :: "nat \<Rightarrow> nat \<Rightarrow> nat \<Rightarrow> nat" where
  "ch64 e f g = (e AND f) XOR (not64 e AND g)"

definition maj64 :: "nat \<Rightarrow> nat \<Rightarrow> nat \<Rightarrow> nat" where
  "maj64 a b c = (a AND b) XOR (a AND c) XOR (b AND c)"

fun words64 :: "byte list \<Rightarrow> nat list" where
  "words64 (a # b # c # d # e # f # g # h # rest) =
     be_nat [a, b, c, d, e, f, g, h] 0 # words64 rest"
| "words64 _ = []"

text \<open>The message schedule is kept newest word first: the head is \<open>W\<^sub>t\<^sub>-\<^sub>1\<close>.\<close>

fun next_w :: "nat list \<Rightarrow> nat" where
  "next_w (w1 # w2 # w3 # w4 # w5 # w6 # w7 # w8 # w9 # w10 # w11 # w12 # w13 # w14
      # w15 # w16 # ws) = trunc64 (ssig1 w2 + w7 + ssig0 w15 + w16)"
| "next_w _ = 0"

fun schedule :: "nat \<Rightarrow> nat list \<Rightarrow> nat list" where
  "schedule n ws = (if n = 0 then ws else schedule (n - 1) (next_w ws # ws))"

declare schedule.simps [simp del]

fun round64 :: "nat list \<Rightarrow> nat \<times> nat \<Rightarrow> nat list" where
  "round64 [a, b, c, d, e, f, g, h] (k, w) =
     (let t1 = h + bsig1 e + ch64 e f g + k + w;
          t2 = bsig0 a + maj64 a b c
      in [trunc64 (t1 + t2), a, b, c, trunc64 (d + t1), e, f, g])"
| "round64 s _ = s"

definition compress :: "nat list \<Rightarrow> byte list \<Rightarrow> nat list" where
  "compress hs blk =
     map2 (\<lambda>x y. trunc64 (x + y)) hs
       (foldl round64 hs (zip sha512_K (rev (schedule 64 (rev (words64 blk))))))"

definition sha_pad :: "byte list \<Rightarrow> byte list" where
  "sha_pad m = m @ [128] @ replicate ((239 - length m mod 128) mod 128) 0
     @ be_bytes 16 (8 * length m)"

fun blocks :: "byte list \<Rightarrow> byte list list" where
  "blocks m = (if length m < 128 then [] else take 128 m # blocks (drop 128 m))"

declare blocks.simps [simp del]

definition sha384 :: "byte list \<Rightarrow> byte list" where
  "sha384 m = concat (map (be_bytes 8) (take 6 (foldl compress sha384_H0 (blocks (sha_pad m)))))"

text \<open>
  \<open>EVP_MD\<close>: a digest algorithm, with the size of its output (\<open>EVP_MD_size\<close>) and the
  function from the bytes fed to a context to the bytes \<open>EVP_DigestFinal_ex\<close> writes.
\<close>

record evp_md =
  md_size :: nat
  md_hash :: "byte list \<Rightarrow> byte list"

definition EVP_sha384 :: evp_md where
  "EVP_sha384 = \<lparr>md_size = 48, md_hash = sha384\<rparr>"

definition EVP_MAX_MD_SIZE :: nat where
  "EVP_MAX_MD_SIZE = 64"

section \<open>Resource records: the data model of the ldns library\<close>

text \<open>
  The program stores what the ldns library parses. A domain name is its list of labels,
  leftmost first (the root name is the empty list); an rdata field (\<open>ldns_rdf\<close>) is a
  type tag and its bytes; a resource record (\<open>ldns_rr\<close>) has an owner, a TTL, a class,
  a type and a list of rdata fields.
\<close>

type_synonym dname = "byte list list"

datatype ldns_rdf_type =
    LDNS_RDF_TYPE_INT8 | LDNS_RDF_TYPE_INT16 | LDNS_RDF_TYPE_INT32 | LDNS_RDF_TYPE_HEX
  | LDNS_RDF_TYPE_TYPE | LDNS_RDF_TYPE_DNAME | LDNS_RDF_TYPE_A | LDNS_RDF_TYPE_STR
  | LDNS_RDF_TYPE_UNKNOWN | LDNS_RDF_TYPE_OTHER

record ldns_rdf =
  rdf_type :: ldns_rdf_type
  rdf_data :: "byte list"

record ldns_rr =
  rr_owner :: dname
  rr_ttl :: nat
  rr_class :: nat
  rr_type :: nat
  rr_rdata :: "ldns_rdf list"

definition LDNS_RR_TYPE_SOA :: nat where "LDNS_RR_TYPE_SOA = 6"
definition LDNS_RR_TYPE_RRSIG :: nat where "LDNS_RR_TYPE_RRSIG = 46"
definition LDNS_RR_TYPE_ZONEMD :: nat where "LDNS_RR_TYPE_ZONEMD = 63"
definition ZONEMD_RR_TYPE :: nat where "ZONEMD_RR_TYPE = 63"

subsection \<open>Library functions the program calls\<close>

text \<open>
  Names compare label by label from the right, without regard to the case of ASCII
  letters; \<open>dname_key\<close> is the key of that order.
\<close>

definition lower_byte :: "byte \<Rightarrow> byte" where
  "lower_byte b = (if 65 \<le> b \<and> b \<le> 90 then b + 32 else b)"

definition dname_key :: "dname \<Rightarrow> byte list list" where
  "dname_key d = rev (map (map lower_byte) d)"

definition three_way :: "'a::linorder \<Rightarrow> 'a \<Rightarrow> int" where
  "three_way a b = (if a < b then - 1 else if a = b then 0 else 1)"

definition ldns_dname_compare :: "dname \<Rightarrow> dname \<Rightarrow> int" where
  "ldns_dname_compare a b = three_way (dname_key a) (dname_key b)"

definition ldns_dname_is_subdomain :: "dname \<Rightarrow> dname \<Rightarrow> bool" where
  "ldns_dname_is_subdomain sub parent \<longleftrightarrow>
     length parent < length sub \<and> take (length parent) (dname_key sub) = dname_key parent"

text \<open>
  The printable form of a name: every label followed by a dot; the root is a dot. The
  labels are taken to hold letters, digits and hyphens, which ldns prints as they are.
\<close>

definition ldns_rdf2str :: "dname \<Rightarrow> byte list" where
  "ldns_rdf2str d = (if d = [] then [46] else concat (map (\<lambda>l. l @ [46]) d))"

definition dname_wire :: "dname \<Rightarrow> byte list" where
  "dname_wire d = concat (map (\<lambda>l. length l # l) d) @ [0]"

definition rdata_wire :: "ldns_rr \<Rightarrow> byte list" where
  "rdata_wire rr = concat (map rdf_data (rr_rdata rr))"

text \<open>The uncompressed wire form of a record in the answer section.\<close>

definition ldns_rr2wire :: "ldns_rr \<Rightarrow> byte list" where
  "ldns_rr2wire rr =
     dname_wire (rr_owner rr) @ be_bytes 2 (rr_type rr) @ be_bytes 2 (rr_class rr)
       @ be_bytes 4 (rr_ttl rr) @ be_bytes 2 (length (rdata_wire rr)) @ rdata_wire rr"

text \<open>
  The order of \<open>ldns_rr_compare\<close>: owner name, then class, then type, then the rdata
  bytes. The TTL takes no part in it.
\<close>

definition rr_key :: "ldns_rr \<Rightarrow> byte list list \<times> nat \<times> nat \<times> byte list" where
  "rr_key rr = (dname_key (rr_owner rr), rr_class rr, rr_type rr, rdata_wire rr)"

definition ldns_rr_compare :: "ldns_rr \<Rightarrow> ldns_rr \<Rightarrow> int" where
  "ldns_rr_compare a b = three_way (rr_key a) (rr_key b)"

definition ldns_rr_list_sort :: "ldns_rr list \<Rightarrow> ldns_rr list" where
  "ldns_rr_list_sort rrs = sort_key rr_key rrs"

definition ldns_rr_rdf :: "ldns_rr \<Rightarrow> nat \<Rightarrow> ldns_rdf option" where
  "ldns_rr_rdf rr i = (if i < length (rr_rdata rr) then Some (rr_rdata rr ! i) else None)"

text \<open>The integer readers of ldns return 0 when the field has not the size of the integer.\<close>

definition ldns_rdf2native_int8 :: "ldns_rdf \<Rightarrow> nat" where
  "ldns_rdf2native_int8 r = (if length (rdf_data r) = 1 then be_nat (rdf_data r) 0 else 0)"

definition ldns_rdf2native_int16 :: "ldns_rdf \<Rightarrow> nat" where
  "ldns_rdf2native_int16 r = (if length (rdf_data r) = 2 then be_nat (rdf_data r) 0 else 0)"

definition ldns_rdf2native_int32 :: "ldns_rdf \<Rightarrow> nat" where
  "ldns_rdf2native_int32 r = (if length (rdf_data r) = 4 then be_nat (rdf_data r) 0 else 0)"

section \<open>The program\<close>

text \<open>
  The global variables that are fixed before the zone is read: the origin, whether
  ldns parses ZONEMD itself (\<open>probe_ldns\<close>), and the depth and width of the digest tree.
\<close>

record config =
  origin :: dname
  ldns_knows_about_zonemd :: bool
  zonemd_tree_max_depth :: nat
  zonemd_tree_max_width :: nat

text \<open>
  Every way the process ends early: a failed \<open>assert\<close>, the \<open>errx\<close> calls, and the
  division by a tree width of zero.
\<close>

datatype error =
    AssertionFailed
  | RdfTypeMismatch nat
  | RdlenTooShort
  | DigestTypeMismatch
  | NoZonemdRecord
  | NoSoaRecord
  | ParseError
  | DivisionByZero

definition uimin :: "nat \<Rightarrow> nat \<Rightarrow> nat" where
  "uimin a b = (if a < b then a else b)"

subsection \<open>The ZONEMD record codec\<close>

text \<open>
  \<open>zonemd_rr_pack\<close>: \<open>digest = None\<close> is the NULL pointer. The source copies
  \<open>digest_sz\<close> bytes from the buffer; every caller passes a buffer at least that long.
\<close>

definition zonemd_rr_pack ::
  "config \<Rightarrow> ldns_rr \<Rightarrow> nat \<Rightarrow> nat \<Rightarrow> byte list option \<Rightarrow> nat \<Rightarrow> ldns_rr" where
  "zonemd_rr_pack cfg rr serial digest_type digest digest_sz =
     (let d = (case digest of None \<Rightarrow> replicate digest_sz 0 | Some b \<Rightarrow> take digest_sz b)
      in if ldns_knows_about_zonemd cfg then
           rr\<lparr>rr_rdata :=
             [\<lparr>rdf_type = LDNS_RDF_TYPE_INT32, rdf_data = be_bytes 4 serial\<rparr>,
              \<lparr>rdf_type = LDNS_RDF_TYPE_INT8, rdf_data = be_bytes 1 digest_type\<rparr>,
              \<lparr>rdf_type = LDNS_RDF_TYPE_INT8, rdf_data = be_bytes 1 0\<rparr>,
              \<lparr>rdf_type = LDNS_RDF_TYPE_HEX, rdf_data = d\<rparr>]\<rparr>
         else
           rr\<lparr>rr_rdata :=
             [\<lparr>rdf_type = LDNS_RDF_TYPE_UNKNOWN,
               rdf_data = be_bytes 4 serial @ be_bytes 1 digest_type @ [0] @ d\<rparr>]\<rparr>)"

text \<open>
  \<open>zonemd_rr_unpack\<close> returns the serial, the digest type and the digest bytes;
  \<open>cap\<close> is the size of the caller's digest buffer.
\<close>

definition zonemd_rr_unpack ::
  "config \<Rightarrow> ldns_rr \<Rightarrow> nat \<Rightarrow> error + (nat \<times> nat \<times> byte list)" where
  "zonemd_rr_unpack cfg rr cap =
     (if ldns_knows_about_zonemd cfg then
        (case ldns_rr_rdf rr 0 of None \<Rightarrow> Inl AssertionFailed | Some r0 \<Rightarrow>
         if rdf_type r0 \<noteq> LDNS_RDF_TYPE_INT32 then Inl (RdfTypeMismatch 1) else
         (case ldns_rr_rdf rr 1 of None \<Rightarrow> Inl AssertionFailed | Some r1 \<Rightarrow>
          if rdf_type r1 \<noteq> LDNS_RDF_TYPE_INT8 then Inl (RdfTypeMismatch 2) else
          (case ldns_rr_rdf rr 3 of None \<Rightarrow> Inl AssertionFailed | Some r3 \<Rightarrow>
           if rdf_type r3 \<noteq> LDNS_RDF_TYPE_HEX then Inl (RdfTypeMismatch 4) else
           Inr (ldns_rdf2native_int32 r0, ldns_rdf2native_int8 r1,
                take (uimin cap (length (rdf_data r3))) (rdf_data r3)))))
      else
        (case ldns_rr_rdf rr 0 of None \<Rightarrow> Inl AssertionFailed | Some r \<Rightarrow>
         if length (rdf_data r) < 6 then Inl RdlenTooShort else
         Inr (be_nat (take 4 (rdf_data r)) 0, rdf_data r ! 4,
              take (uimin cap (length (rdf_data r) - 6)) (drop 6 (rdf_data r)))))"

definition zonemd_rr_update_digest ::
  "config \<Rightarrow> ldns_rr \<Rightarrow> nat \<Rightarrow> byte list option \<Rightarrow> nat \<Rightarrow> error + ldns_rr" where
  "zonemd_rr_update_digest cfg rr new_digest_type new_digest_buf new_digest_len =
     (case zonemd_rr_unpack cfg rr EVP_MAX_MD_SIZE of
        Inl e \<Rightarrow> Inl e
      | Inr (old_serial, old_digest_type, old_digest) \<Rightarrow>
          if old_digest_type \<noteq> new_digest_type then Inl DigestTypeMismatch
          else Inr (zonemd_rr_pack cfg rr old_serial old_digest_type new_digest_buf
                      new_digest_len))"

definition my_typecovered :: "ldns_rr \<Rightarrow> error + nat" where
  "my_typecovered rrsig =
     (case ldns_rr_rdf rrsig 0 of None \<Rightarrow> Inl AssertionFailed
      | Some rdf \<Rightarrow> Inr (ldns_rdf2native_int16 rdf))"

definition zonemd_digester :: "nat \<Rightarrow> evp_md option" where
  "zonemd_digester t = (if t = 1 then Some EVP_sha384 else None)"

subsection \<open>The canonicalizer: \<open>zonemd_rrlist_digest\<close>\<close>

text \<open>
  The two tests of the loop body, each on one record. \<open>rrsig_over_zonemd\<close> is the test
  that drops a signature over ZONEMD; \<open>zonemd_zeroized\<close> is the record that is
  encoded: for a ZONEMD record at the apex a copy with the digest set to zeros, whose
  length is the size of the digest when the type is supported and the stored length
  (at most \<open>EVP_MAX_MD_SIZE\<close>) otherwise.
\<close>

definition rrsig_over_zonemd :: "ldns_rr \<Rightarrow> error + bool" where
  "rrsig_over_zonemd rr =
     (if rr_type rr = LDNS_RR_TYPE_RRSIG then
        (case my_typecovered rr of Inl e \<Rightarrow> Inl e | Inr tc \<Rightarrow> Inr (tc = ZONEMD_RR_TYPE))
      else Inr False)"

definition zonemd_zeroized :: "config \<Rightarrow> ldns_rr \<Rightarrow> error + ldns_rr" where
  "zonemd_zeroized cfg rr =
     (if rr_type rr = LDNS_RR_TYPE_ZONEMD \<and> ldns_dname_compare (rr_owner rr) (origin cfg) = 0
      then
        (case zonemd_rr_unpack cfg rr EVP_MAX_MD_SIZE of
           Inl e \<Rightarrow> Inl e
         | Inr (serial, t, digest) \<Rightarrow>
             zonemd_rr_update_digest cfg rr t None
               (case zonemd_digester t of Some md \<Rightarrow> md_size md | None \<Rightarrow> length digest))
      else Inr rr)"

text \<open>
  The loop over the sorted list. \<open>prev\<close> is the last record that was not skipped as a
  duplicate. The result is the bytes passed to \<open>EVP_DigestUpdate\<close>, in order, and the
  records reported by the warning "Ignoring duplicate RR".
\<close>

fun digest_loop ::
  "config \<Rightarrow> ldns_rr option \<Rightarrow> ldns_rr list \<Rightarrow> error + (byte list \<times> ldns_rr list)" where
  "digest_loop cfg prev [] = Inr ([], [])"
| "digest_loop cfg prev (rr # rest) =
     (if (case prev of None \<Rightarrow> False | Some p \<Rightarrow> ldns_rr_compare rr p = 0) then
        (case digest_loop cfg prev rest of
           Inl e \<Rightarrow> Inl e
         | Inr (fed, warned) \<Rightarrow> Inr (fed, rr # warned))
      else
        (case rrsig_over_zonemd rr of
           Inl e \<Rightarrow> Inl e
         | Inr True \<Rightarrow> digest_loop cfg (Some rr) rest
         | Inr False \<Rightarrow>
             (case zonemd_zeroized cfg rr of
                Inl e \<Rightarrow> Inl e
              | Inr rr' \<Rightarrow>
                  (case digest_loop cfg (Some rr) rest of
                     Inl e \<Rightarrow> Inl e
                   | Inr (fed, warned) \<Rightarrow> Inr (ldns_rr2wire rr' @ fed, warned)))))"

text \<open>
  \<open>zonemd_rrlist_digest\<close> sorts the list in place and runs the loop: it returns the
  sorted list as well.
\<close>

definition zonemd_rrlist_digest ::
  "config \<Rightarrow> ldns_rr list \<Rightarrow> error + (ldns_rr list \<times> byte list \<times> ldns_rr list)" where
  "zonemd_rrlist_digest cfg rrlist =
     (let sorted_list = ldns_rr_list_sort rrlist
      in case digest_loop cfg None sorted_list of
           Inl e \<Rightarrow> Inl e
         | Inr (fed, warned) \<Rightarrow> Inr (sorted_list, fed, warned))"

subsection \<open>Flat mode\<close>

text \<open>
  Without \<open>ZONEMD_INCREMENTAL\<close> the store is the list \<open>the_rrlist\<close>.
  \<open>zonemd_calc_digest\<close> returns the store (now sorted), the digest written to \<open>buf\<close>
  and the duplicate warnings.
\<close>

definition zonemd_calc_digest_flat ::
  "config \<Rightarrow> evp_md \<Rightarrow> ldns_rr list \<Rightarrow> error + (ldns_rr list \<times> byte list \<times> ldns_rr list)" where
  "zonemd_calc_digest_flat cfg md the_rrlist =
     (case zonemd_rrlist_digest cfg the_rrlist of
        Inl e \<Rightarrow> Inl e
      | Inr (sorted_list, fed, warned) \<Rightarrow> Inr (sorted_list, md_hash md fed, warned))"

subsection \<open>Tree mode\<close>

text \<open>
  With \<open>ZONEMD_INCREMENTAL\<close> the store is a tree of nodes. A node has the list of a
  leaf (\<open>None\<close> is the NULL pointer), the array of its children (\<open>None\<close> before it is
  allocated, then \<open>zonemd_tree_max_width\<close> entries), a digest buffer of
  \<open>EVP_MAX_MD_SIZE\<close> bytes and the dirty flag. The field \<open>depth\<close> of the source is 0
  in the root and one more than the parent's in every other node, and it is never
  written again: the functions below carry it as the argument \<open>d\<close> of the descent. The
  fields \<open>branch\<close> and \<open>parent\<close> are written and never read outside debug output.
\<close>

datatype zonemd_tree =
  Node (rrlist: "ldns_rr list option") (kids: "zonemd_tree option list option")
       (digest: "byte list") (dirty: bool)

text \<open>A node as \<open>calloc\<close> returns it.\<close>

definition new_node :: zonemd_tree where
  "new_node = Node None None (replicate EVP_MAX_MD_SIZE 0) False"

text \<open>
  \<open>zonemd_tree_branch_by_name\<close> reads a byte of the name as a \<open>char\<close>, which is
  signed where the program is built (x86-64): a byte of 128 or more is a negative
  number, and its conversion to \<open>unsigned int\<close> for the remainder adds 2 to the power
  32.
\<close>

definition char_to_uint :: "byte \<Rightarrow> nat" where
  "char_to_uint b = (if b < 128 then b else 2 ^ 32 - 256 + b)"

definition zonemd_tree_branch_by_name :: "config \<Rightarrow> nat \<Rightarrow> byte list \<Rightarrow> error + nat" where
  "zonemd_tree_branch_by_name cfg depth name =
     (if length name = 0 then Inr 0
      else if zonemd_tree_max_width cfg = 0 then Inl DivisionByZero
      else Inr (char_to_uint (name ! (depth mod length name)) mod zonemd_tree_max_width cfg))"

text \<open>
  \<open>zonemd_tree_get_leaf_by_name\<close> marks every node on the way dirty, creates the
  missing ones and returns a pointer to the leaf, which the caller then reads or writes.
  The model takes what the caller does to the leaf as the function \<open>upd\<close> and returns
  the tree.
\<close>

function zonemd_tree_get_leaf_by_name ::
  "config \<Rightarrow> (zonemd_tree \<Rightarrow> error + zonemd_tree) \<Rightarrow> nat \<Rightarrow> zonemd_tree \<Rightarrow> byte list
     \<Rightarrow> error + zonemd_tree" where
  "zonemd_tree_get_leaf_by_name cfg upd d (Node rl ks dg dt) name =
     (if zonemd_tree_max_depth cfg > d then
        (case zonemd_tree_branch_by_name cfg d name of
           Inl e \<Rightarrow> Inl e
         | Inr branch \<Rightarrow>
             (let arr = (case ks of
                           None \<Rightarrow> replicate (zonemd_tree_max_width cfg) None
                         | Some a \<Rightarrow> a);
                  kid = (case arr ! branch of None \<Rightarrow> new_node | Some k \<Rightarrow> k)
              in case zonemd_tree_get_leaf_by_name cfg upd (d + 1) kid name of
                   Inl e \<Rightarrow> Inl e
                 | Inr kid' \<Rightarrow> Inr (Node rl (Some (arr[branch := Some kid'])) dg True)))
      else upd (Node rl ks dg True))"
  by pat_completeness auto
termination
  by (relation "measure (\<lambda>(cfg, upd, d, node, name). zonemd_tree_max_depth cfg - d)") auto

definition zonemd_tree_get_leaf_by_owner ::
  "config \<Rightarrow> (zonemd_tree \<Rightarrow> error + zonemd_tree) \<Rightarrow> zonemd_tree \<Rightarrow> dname
     \<Rightarrow> error + zonemd_tree" where
  "zonemd_tree_get_leaf_by_owner cfg upd root owner =
     zonemd_tree_get_leaf_by_name cfg
       (\<lambda>leaf. if kids leaf \<noteq> None then Inl AssertionFailed else upd leaf)
       0 root (ldns_rdf2str owner)"

definition push_rr :: "ldns_rr \<Rightarrow> zonemd_tree \<Rightarrow> error + zonemd_tree" where
  "push_rr rr leaf =
     Inr (Node (Some ((case rrlist leaf of None \<Rightarrow> [] | Some l \<Rightarrow> l) @ [rr]))
            (kids leaf) (digest leaf) (dirty leaf))"

definition zonemd_tree_add_rr :: "config \<Rightarrow> zonemd_tree \<Rightarrow> ldns_rr \<Rightarrow> error + zonemd_tree" where
  "zonemd_tree_add_rr cfg root rr =
     zonemd_tree_get_leaf_by_owner cfg (push_rr rr) root (rr_owner rr)"

text \<open>
  \<open>zonemd_calc_digest\<close> on a node. The source writes the digest of the node to the
  buffer \<open>buf\<close> of its caller, and nothing when the node is clean: the model returns the
  bytes written (\<open>None\<close> for no write) and the caller stores them. For a child the
  source passes the digest buffer of the parent as \<open>buf\<close>, and after each call feeds the
  first \<open>EVP_MD_size\<close> bytes of that buffer to the parent's context: \<open>calc_kids\<close> is
  that loop, carrying the parent's buffer.
\<close>

definition write_buf :: "byte list option \<Rightarrow> byte list \<Rightarrow> byte list" where
  "write_buf out buf = (case out of None \<Rightarrow> buf | Some h \<Rightarrow> h @ drop (length h) buf)"

fun zonemd_calc_digest_tree ::
  "config \<Rightarrow> evp_md \<Rightarrow> nat \<Rightarrow> zonemd_tree
     \<Rightarrow> error + (zonemd_tree \<times> byte list option \<times> ldns_rr list)"
and calc_kids ::
  "config \<Rightarrow> evp_md \<Rightarrow> nat \<Rightarrow> zonemd_tree option list \<Rightarrow> byte list
     \<Rightarrow> error + (zonemd_tree option list \<times> byte list \<times> byte list \<times> ldns_rr list)" where
  "zonemd_calc_digest_tree cfg md d (Node rl ks dg dt) =
     (if \<not> dt then Inr (Node rl ks dg dt, None, [])
      else if zonemd_tree_max_depth cfg > d then
        (case ks of
           None \<Rightarrow> Inl AssertionFailed
         | Some arr \<Rightarrow>
             (case calc_kids cfg md d arr dg of
                Inl e \<Rightarrow> Inl e
              | Inr (arr', dg', fed, warned) \<Rightarrow>
                  Inr (Node rl (Some arr') dg' False, Some (md_hash md fed), warned)))
      else
        (case rl of
           None \<Rightarrow> Inl AssertionFailed
         | Some l \<Rightarrow>
             (case zonemd_rrlist_digest cfg (ldns_rr_list_sort l) of
                Inl e \<Rightarrow> Inl e
              | Inr (sorted_list, fed, warned) \<Rightarrow>
                  Inr (Node (Some sorted_list) ks dg False, Some (md_hash md fed), warned))))"
| "calc_kids cfg md d [] buf = Inr ([], buf, [], [])"
| "calc_kids cfg md d (None # rest) buf =
     (case calc_kids cfg md d rest buf of
        Inl e \<Rightarrow> Inl e
      | Inr (rest', buf', fed, warned) \<Rightarrow> Inr (None # rest', buf', fed, warned))"
| "calc_kids cfg md d (Some kid # rest) buf =
     (case zonemd_calc_digest_tree cfg md (d + 1) kid of
        Inl e \<Rightarrow> Inl e
      | Inr (kid', out, warned1) \<Rightarrow>
          (case calc_kids cfg md d rest (write_buf out buf) of
             Inl e \<Rightarrow> Inl e
           | Inr (rest', buf', fed, warned2) \<Rightarrow>
               Inr (Some kid' # rest', buf',
                    take (md_size md) (write_buf out buf) @ fed, warned1 @ warned2)))"

text \<open>
  The call of \<open>do_calculate\<close> and \<open>do_verify\<close>: the root, with the root's own digest
  buffer as \<open>buf\<close>. The result is the tree, the first \<open>EVP_MD_size\<close> bytes of that buffer
  and the warnings.
\<close>

definition zonemd_calc_digest_root ::
  "config \<Rightarrow> evp_md \<Rightarrow> zonemd_tree \<Rightarrow> error + (zonemd_tree \<times> byte list \<times> ldns_rr list)" where
  "zonemd_calc_digest_root cfg md theTree =
     (case zonemd_calc_digest_tree cfg md 0 theTree of
        Inl e \<Rightarrow> Inl e
      | Inr (t, out, warned) \<Rightarrow>
          (let t' = Node (rrlist t) (kids t) (write_buf out (digest t)) (dirty t)
           in Inr (t', take (md_size md) (digest t'), warned)))"

subsection \<open>Store operations of flat mode\<close>

definition zonemd_add_rr_flat :: "ldns_rr \<Rightarrow> ldns_rr list \<Rightarrow> error + ldns_rr list" where
  "zonemd_add_rr_flat rr the_rrlist = Inr (the_rrlist @ [rr])"

definition is_apex_zonemd :: "config \<Rightarrow> ldns_rr \<Rightarrow> bool" where
  "is_apex_zonemd cfg rr \<longleftrightarrow>
     rr_type rr = ZONEMD_RR_TYPE \<and> ldns_dname_compare (rr_owner rr) (origin cfg) = 0"

text \<open>
  \<open>zonemd_rr_find\<close> returns a pointer to a new list, which the callers test against
  NULL: the result is an option, and it is never \<open>None\<close>.
\<close>

definition zonemd_rr_find :: "config \<Rightarrow> ldns_rr list \<Rightarrow> ldns_rr list option" where
  "zonemd_rr_find cfg the_rrlist = Some (filter (is_apex_zonemd cfg) the_rrlist)"

fun zonemd_remove_rr ::
  "config \<Rightarrow> nat \<Rightarrow> nat \<Rightarrow> ldns_rr list \<Rightarrow> error + ldns_rr list" where
  "zonemd_remove_rr cfg t covered [] = Inr []"
| "zonemd_remove_rr cfg t covered (rr # rest) =
     (if ldns_dname_compare (rr_owner rr) (origin cfg) \<noteq> 0 then
        map_sum id ((#) rr) (zonemd_remove_rr cfg t covered rest)
      else if rr_type rr \<noteq> t then
        map_sum id ((#) rr) (zonemd_remove_rr cfg t covered rest)
      else if t = LDNS_RR_TYPE_RRSIG then
        (case my_typecovered rr of
           Inl e \<Rightarrow> Inl e
         | Inr tc \<Rightarrow>
             if tc \<noteq> covered then map_sum id ((#) rr) (zonemd_remove_rr cfg t covered rest)
             else zonemd_remove_rr cfg t covered rest)
      else zonemd_remove_rr cfg t covered rest)"

subsection \<open>Verify and calculate (flat mode)\<close>

datatype verify_msg =
    SerialMismatch nat nat
  | UnsupportedDigestType nat
  | DigestMismatch nat "byte list" "byte list"
  | DigestMatch nat

definition soa_serial :: "ldns_rr \<Rightarrow> error + nat" where
  "soa_serial the_soa =
     (case ldns_rr_rdf the_soa 2 of
        None \<Rightarrow> Inl AssertionFailed
      | Some rdf \<Rightarrow> Inr (ldns_rdf2native_int32 rdf))"

text \<open>
  The loop of \<open>do_verify\<close> over the records found. The result is the store (each
  computation sorts it), \<open>rc\<close> and the messages printed. \<open>found_digest_buf\<close> is an
  array of \<open>EVP_MAX_MD_SIZE\<close> bytes that the source never initialises:
  \<open>zonemd_rr_unpack\<close> writes the stored digest to its start, and its first
  \<open>EVP_MD_size\<close> bytes are compared with the computed digest. Behind a stored digest
  that is shorter, the array holds what it held before: the bytes of the record of the
  pass before or, in the first pass, the bytes the stack held. The loop carries the
  array, and \<open>do_verify\<close> takes the bytes of the stack as the argument \<open>stack\<close>.
\<close>

fun do_verify_loop ::
  "config \<Rightarrow> ldns_rr \<Rightarrow> ldns_rr list \<Rightarrow> byte list \<Rightarrow> ldns_rr list
     \<Rightarrow> error + (ldns_rr list \<times> nat \<times> verify_msg list)" where
  "do_verify_loop cfg the_soa the_rrlist buf [] = Inr (the_rrlist, 0, [])"
| "do_verify_loop cfg the_soa the_rrlist buf (zonemd_rr # rest) =
     (case zonemd_rr_unpack cfg zonemd_rr EVP_MAX_MD_SIZE of
        Inl e \<Rightarrow> Inl e
      | Inr (found_serial, found_digest_type, found_digest) \<Rightarrow>
     (case soa_serial the_soa of
        Inl e \<Rightarrow> Inl e
      | Inr serial \<Rightarrow>
     (let found_digest_buf = write_buf (Some found_digest) buf;
          rc1 = (if found_serial \<noteq> serial then 1 else 0);
          msg1 = (if found_serial \<noteq> serial then [SerialMismatch serial found_serial] else [])
      in case zonemd_digester found_digest_type of
           None \<Rightarrow>
             (case do_verify_loop cfg the_soa the_rrlist found_digest_buf rest of
                Inl e \<Rightarrow> Inl e
              | Inr (l, rc, msgs) \<Rightarrow>
                  Inr (l, rc1 OR rc, msg1 @ UnsupportedDigestType found_digest_type # msgs))
         | Some md \<Rightarrow>
             (case zonemd_calc_digest_flat cfg md the_rrlist of
                Inl e \<Rightarrow> Inl e
              | Inr (sorted_list, md_buf, warned) \<Rightarrow>
                  (let differ = (take (md_size md) found_digest_buf \<noteq> md_buf);
                       rc2 = (if differ then 1 else 0);
                       msg2 = (if differ
                               then DigestMismatch found_digest_type
                                      (take (md_size md) found_digest_buf) md_buf
                               else DigestMatch found_digest_type)
                   in case do_verify_loop cfg the_soa sorted_list found_digest_buf rest of
                        Inl e \<Rightarrow> Inl e
                      | Inr (l, rc, msgs) \<Rightarrow>
                          Inr (l, rc1 OR rc2 OR rc, msg1 @ msg2 # msgs))))))"

definition do_verify ::
  "config \<Rightarrow> ldns_rr \<Rightarrow> ldns_rr list \<Rightarrow> byte list
     \<Rightarrow> error + (ldns_rr list \<times> nat \<times> verify_msg list)" where
  "do_verify cfg the_soa the_rrlist stack =
     (case zonemd_rr_find cfg the_rrlist of
        None \<Rightarrow> Inl NoZonemdRecord
      | Some zonemd_rr_list \<Rightarrow> do_verify_loop cfg the_soa the_rrlist stack zonemd_rr_list)"

text \<open>
  \<open>do_calculate\<close> without a signing key. The list found holds pointers to records of
  the store, and the loop writes each digest through its pointer while every
  computation sorts the store: the records are numbered by their place before the loop,
  and the number stands for the pointer.
\<close>

fun do_calculate_loop ::
  "config \<Rightarrow> (nat \<times> ldns_rr) list \<Rightarrow> nat list \<Rightarrow> error + (nat \<times> ldns_rr) list" where
  "do_calculate_loop cfg store [] = Inr store"
| "do_calculate_loop cfg store (p # rest) =
     (case map_of store p of
        None \<Rightarrow> Inl AssertionFailed
      | Some zonemd_rr \<Rightarrow>
     (case zonemd_rr_unpack cfg zonemd_rr 0 of
        Inl e \<Rightarrow> Inl e
      | Inr (serial, found_digest_type, unused) \<Rightarrow>
     (case zonemd_digester found_digest_type of
        None \<Rightarrow> Inl AssertionFailed
      | Some md \<Rightarrow>
     (case zonemd_calc_digest_flat cfg md (map snd store) of
        Inl e \<Rightarrow> Inl e
      | Inr (sorted_list, md_buf, warned) \<Rightarrow>
     (case zonemd_rr_update_digest cfg zonemd_rr found_digest_type (Some md_buf) (md_size md) of
        Inl e \<Rightarrow> Inl e
      | Inr rr' \<Rightarrow>
          do_calculate_loop cfg
            (map (\<lambda>(q, rr). if q = p then (q, rr') else (q, rr))
               (sort_key (\<lambda>(q, rr). rr_key rr) store))
            rest)))))"

definition do_calculate :: "config \<Rightarrow> ldns_rr list \<Rightarrow> error + ldns_rr list" where
  "do_calculate cfg the_rrlist =
     (case zonemd_rr_find cfg the_rrlist of
        None \<Rightarrow> Inl NoZonemdRecord
      | Some zonemd_rr_list \<Rightarrow>
          (let store = zip [0..<length the_rrlist] the_rrlist
           in map_sum id (map snd)
                (do_calculate_loop cfg store
                   (map fst (filter (\<lambda>(q, rr). is_apex_zonemd cfg rr) store)))))"

text \<open>
  The exit status of \<open>main\<close> once the zone is loaded: \<open>rc\<close> starts at 0, takes the result
  of \<open>do_verify\<close> when \<open>-v\<close> is given, and is returned.
\<close>

definition main_exit_status ::
  "bool \<Rightarrow> config \<Rightarrow> ldns_rr \<Rightarrow> ldns_rr list \<Rightarrow> byte list \<Rightarrow> error + nat" where
  "main_exit_status verify cfg the_soa the_rrlist stack =
     (if verify then
        (case do_verify cfg the_soa the_rrlist stack of
           Inl e \<Rightarrow> Inl e
         | Inr (l, rc, msgs) \<Rightarrow> Inr (0 OR rc))
      else Inr 0)"

subsection \<open>Loading and updating the zone\<close>

text \<open>
  The zone file and the update file are parsed by ldns. A zone as ldns returns it has
  the SOA record apart from the other records; a line of the update file is either
  unparseable (no command, or nothing after it) or a command and what the parser made
  of the rest of the line (\<open>None\<close>: not a record). \<open>add\<close> is \<open>zonemd_add_rr\<close> of the
  store in use.
\<close>

record ldns_zone =
  zone_soa :: "ldns_rr option"
  zone_rrs :: "ldns_rr list"

definition in_zone :: "config \<Rightarrow> ldns_rr \<Rightarrow> bool" where
  "in_zone cfg rr \<longleftrightarrow>
     ldns_dname_compare (rr_owner rr) (origin cfg) = 0
       \<or> ldns_dname_is_subdomain (rr_owner rr) (origin cfg)"

fun read_zone_loop ::
  "(ldns_rr \<Rightarrow> 's \<Rightarrow> error + 's) \<Rightarrow> config \<Rightarrow> ldns_rr list \<Rightarrow> 's
     \<Rightarrow> error + ('s \<times> nat \<times> ldns_rr list)" where
  "read_zone_loop add cfg [] st = Inr (st, 0, [])"
| "read_zone_loop add cfg (rr # rest) st =
     (if ldns_dname_compare (rr_owner rr) (origin cfg) = 0
         \<or> ldns_dname_is_subdomain (rr_owner rr) (origin cfg) then
        (case add rr st of
           Inl e \<Rightarrow> Inl e
         | Inr st' \<Rightarrow>
             (case read_zone_loop add cfg rest st' of
                Inl e \<Rightarrow> Inl e
              | Inr (st'', count, ignored) \<Rightarrow> Inr (st'', count + 1, ignored)))
      else
        (case read_zone_loop add cfg rest st of
           Inl e \<Rightarrow> Inl e
         | Inr (st'', count, ignored) \<Rightarrow> Inr (st'', count, rr # ignored)))"

definition zonemd_read_zone ::
  "(ldns_rr \<Rightarrow> 's \<Rightarrow> error + 's) \<Rightarrow> config \<Rightarrow> ldns_zone option \<Rightarrow> 's
     \<Rightarrow> error + ('s \<times> ldns_rr \<times> nat \<times> ldns_rr list)" where
  "zonemd_read_zone add cfg parsed st =
     (case parsed of
        None \<Rightarrow> Inl ParseError
      | Some zone \<Rightarrow>
          (case zone_soa zone of
             None \<Rightarrow> Inl NoSoaRecord
           | Some the_soa \<Rightarrow>
               (case add the_soa st of
                  Inl e \<Rightarrow> Inl e
                | Inr st' \<Rightarrow>
                    (case read_zone_loop add cfg (zone_rrs zone) st' of
                       Inl e \<Rightarrow> Inl e
                     | Inr (st'', count, ignored) \<Rightarrow>
                         Inr (st'', the_soa, count + 1, ignored)))))"

datatype update_line = Unparseable | Line string "ldns_rr option"

datatype update_warning = UnparseableInput nat | ExpectedAddOrDel nat

text \<open>
  The loop of \<open>zonemd_zone_update\<close>; \<open>line\<close> counts the lines read. The result is the
  store, the numbers of additions and deletions that are printed, and the warnings.
\<close>

fun zone_update_loop ::
  "(ldns_rr \<Rightarrow> 's \<Rightarrow> error + 's) \<Rightarrow> nat \<Rightarrow> update_line list \<Rightarrow> 's
     \<Rightarrow> error + ('s \<times> nat \<times> nat \<times> update_warning list)" where
  "zone_update_loop add line [] st = Inr (st, 0, 0, [])"
| "zone_update_loop add line (Unparseable # rest) st =
     (case zone_update_loop add (line + 1) rest st of
        Inl e \<Rightarrow> Inl e
      | Inr (st', n_add, n_del, warns) \<Rightarrow>
          Inr (st', n_add, n_del, UnparseableInput (line + 1) # warns))"
| "zone_update_loop add line (Line cmd None # rest) st = Inl ParseError"
| "zone_update_loop add line (Line cmd (Some rr) # rest) st =
     (if cmd = ''add'' then
        (case add rr st of
           Inl e \<Rightarrow> Inl e
         | Inr st' \<Rightarrow>
             (case zone_update_loop add (line + 1) rest st' of
                Inl e \<Rightarrow> Inl e
              | Inr (st'', n_add, n_del, warns) \<Rightarrow> Inr (st'', n_add + 1, n_del, warns)))
      else if cmd = ''del'' then
        (case zone_update_loop add (line + 1) rest st of
           Inl e \<Rightarrow> Inl e
         | Inr (st', n_add, n_del, warns) \<Rightarrow> Inr (st', n_add, n_del + 1, warns))
      else
        (case zone_update_loop add (line + 1) rest st of
           Inl e \<Rightarrow> Inl e
         | Inr (st', n_add, n_del, warns) \<Rightarrow>
             Inr (st', n_add, n_del, ExpectedAddOrDel (line + 1) # warns)))"

definition zonemd_zone_update ::
  "(ldns_rr \<Rightarrow> 's \<Rightarrow> error + 's) \<Rightarrow> update_line list \<Rightarrow> 's
     \<Rightarrow> error + ('s \<times> nat \<times> nat \<times> update_warning list)" where
  "zonemd_zone_update add lines st = zone_update_loop add 0 lines st"

section \<open>Runs of the program\<close>

text \<open>
  A sequence of calls of \<open>zonemd_add_rr\<close>, as the loading loop and the update loop
  make them.
\<close>

fun add_rrs :: "(ldns_rr \<Rightarrow> 's \<Rightarrow> error + 's) \<Rightarrow> ldns_rr list \<Rightarrow> 's \<Rightarrow> error + 's" where
  "add_rrs add [] st = Inr st"
| "add_rrs add (rr # rest) st =
     (case add rr st of Inl e \<Rightarrow> Inl e | Inr st' \<Rightarrow> add_rrs add rest st')"

definition zonemd_add_rr_tree :: "config \<Rightarrow> ldns_rr \<Rightarrow> zonemd_tree \<Rightarrow> error + zonemd_tree" where
  "zonemd_add_rr_tree cfg rr theTree = zonemd_tree_add_rr cfg theTree rr"

text \<open>The digest of a computation, or the error that ended it.\<close>

definition digest_of :: "error + ('s \<times> byte list \<times> 'w) \<Rightarrow> error + byte list" where
  "digest_of r = map_sum id (\<lambda>(st, d, w). d) r"

text \<open>
  The digest of a zone in flat mode and in tree mode: the records are added to the
  empty store, then the digest is computed. \<open>incremental_digest\<close> is the tree-mode run
  that computes the digest of a zone, adds further records and computes the digest
  again.
\<close>

definition flat_digest :: "config \<Rightarrow> evp_md \<Rightarrow> ldns_rr list \<Rightarrow> error + byte list" where
  "flat_digest cfg md zone =
     (case add_rrs zonemd_add_rr_flat zone [] of
        Inl e \<Rightarrow> Inl e
      | Inr the_rrlist \<Rightarrow> digest_of (zonemd_calc_digest_flat cfg md the_rrlist))"

definition tree_digest :: "config \<Rightarrow> evp_md \<Rightarrow> ldns_rr list \<Rightarrow> error + byte list" where
  "tree_digest cfg md zone =
     (case add_rrs (zonemd_add_rr_tree cfg) zone new_node of
        Inl e \<Rightarrow> Inl e
      | Inr theTree \<Rightarrow> digest_of (zonemd_calc_digest_root cfg md theTree))"

definition incremental_digest ::
  "config \<Rightarrow> evp_md \<Rightarrow> ldns_rr list \<Rightarrow> ldns_rr list \<Rightarrow> error + byte list" where
  "incremental_digest cfg md zone added =
     (case add_rrs (zonemd_add_rr_tree cfg) zone new_node of
        Inl e \<Rightarrow> Inl e
      | Inr t0 \<Rightarrow>
          (case zonemd_calc_digest_root cfg md t0 of
             Inl e \<Rightarrow> Inl e
           | Inr (t1, d1, w1) \<Rightarrow>
               (case add_rrs (zonemd_add_rr_tree cfg) added t1 of
                  Inl e \<Rightarrow> Inl e
                | Inr t2 \<Rightarrow> digest_of (zonemd_calc_digest_root cfg md t2))))"

text \<open>
  What \<open>do_verify\<close> checks of one apex ZONEMD record, given the serial of the SOA
  record and the digest computed for the zone: the serial and, where the digest type is
  supported, the stored digest (\<open>zonemd_verifies\<close>); the messages it prints for the
  record (\<open>verify_msgs\<close>). \<open>zonemd_full_length\<close>: the record unpacks and, where
  the digest type is supported, stores at least as many bytes as the digest has.
\<close>

definition zonemd_full_length :: "config \<Rightarrow> ldns_rr \<Rightarrow> bool" where
  "zonemd_full_length cfg rr =
     (case zonemd_rr_unpack cfg rr EVP_MAX_MD_SIZE of
        Inl e \<Rightarrow> False
      | Inr (s, t, d) \<Rightarrow>
          (case zonemd_digester t of None \<Rightarrow> True | Some md \<Rightarrow> md_size md \<le> length d))"



text \<open>
  The first five bytes of the rdata of a ZONEMD record on the wire: the serial and the
  digest type.
\<close>

definition serial_and_type :: "ldns_rr \<Rightarrow> byte list" where
  "serial_and_type rr = take 5 (rdata_wire rr)"

text \<open>
  The value of the variable \<open>prev\<close> of the canonicalizer's loop after the loop has run
  over a list.
\<close>

fun prev_after :: "ldns_rr option \<Rightarrow> ldns_rr list \<Rightarrow> ldns_rr option" where
  "prev_after prev [] = prev"
| "prev_after prev (rr # rest) =
     (if (case prev of None \<Rightarrow> False | Some p \<Rightarrow> ldns_rr_compare rr p = 0)
      then prev_after prev rest else prev_after (Some rr) rest)"


section \<open>A small zone\<close>

text \<open>
  The zone \<open>example.\<close> with its SOA record (serial 1), an address record of
  \<open>www.example.\<close>, a text record at the apex, and ZONEMD records at the apex.
\<close>

definition ex_origin :: dname where
  "ex_origin = [[101, 120, 97, 109, 112, 108, 101]]"

definition ex_www :: dname where
  "ex_www = [[119, 119, 119], [101, 120, 97, 109, 112, 108, 101]]"

definition ex_mail :: dname where
  "ex_mail = [[109, 97, 105, 108], [101, 120, 97, 109, 112, 108, 101]]"

definition ex_other :: dname where
  "ex_other = [[111, 116, 104, 101, 114]]"

definition ex_cfg :: "nat \<Rightarrow> config" where
  "ex_cfg depth = \<lparr>origin = ex_origin, ldns_knows_about_zonemd = True,
     zonemd_tree_max_depth = depth, zonemd_tree_max_width = 13\<rparr>"

definition ex_soa :: ldns_rr where
  "ex_soa = \<lparr>rr_owner = ex_origin, rr_ttl = 3600, rr_class = 1, rr_type = 6,
     rr_rdata =
       [\<lparr>rdf_type = LDNS_RDF_TYPE_DNAME, rdf_data = [2, 110, 115, 0]\<rparr>,
        \<lparr>rdf_type = LDNS_RDF_TYPE_DNAME, rdf_data = [4, 114, 111, 111, 116, 0]\<rparr>,
        \<lparr>rdf_type = LDNS_RDF_TYPE_INT32, rdf_data = [0, 0, 0, 1]\<rparr>,
        \<lparr>rdf_type = LDNS_RDF_TYPE_INT32, rdf_data = [0, 0, 14, 16]\<rparr>,
        \<lparr>rdf_type = LDNS_RDF_TYPE_INT32, rdf_data = [0, 0, 2, 88]\<rparr>,
        \<lparr>rdf_type = LDNS_RDF_TYPE_INT32, rdf_data = [0, 1, 81, 128]\<rparr>,
        \<lparr>rdf_type = LDNS_RDF_TYPE_INT32, rdf_data = [0, 0, 14, 16]\<rparr>]\<rparr>"

definition ex_a :: "dname \<Rightarrow> byte \<Rightarrow> ldns_rr" where
  "ex_a owner b = \<lparr>rr_owner = owner, rr_ttl = 3600, rr_class = 1, rr_type = 1,
     rr_rdata = [\<lparr>rdf_type = LDNS_RDF_TYPE_A, rdf_data = [192, 0, 2, b]\<rparr>]\<rparr>"

definition ex_txt :: ldns_rr where
  "ex_txt = \<lparr>rr_owner = ex_origin, rr_ttl = 3600, rr_class = 1, rr_type = 16,
     rr_rdata = [\<lparr>rdf_type = LDNS_RDF_TYPE_STR, rdf_data = [1, 120]\<rparr>]\<rparr>"

definition ex_rrsig :: "nat \<Rightarrow> ldns_rr" where
  "ex_rrsig covered = \<lparr>rr_owner = ex_origin, rr_ttl = 3600, rr_class = 1, rr_type = 46,
     rr_rdata =
       [\<lparr>rdf_type = LDNS_RDF_TYPE_TYPE, rdf_data = [0, covered]\<rparr>,
        \<lparr>rdf_type = LDNS_RDF_TYPE_OTHER, rdf_data = [8, 1, 0, 0, 14, 16, 1, 2, 3, 4]\<rparr>]\<rparr>"

definition ex_zonemd :: "nat \<Rightarrow> byte list \<Rightarrow> ldns_rr" where
  "ex_zonemd t d = \<lparr>rr_owner = ex_origin, rr_ttl = 3600, rr_class = 1, rr_type = 63,
     rr_rdata =
       [\<lparr>rdf_type = LDNS_RDF_TYPE_INT32, rdf_data = [0, 0, 0, 1]\<rparr>,
        \<lparr>rdf_type = LDNS_RDF_TYPE_INT8, rdf_data = [t]\<rparr>,
        \<lparr>rdf_type = LDNS_RDF_TYPE_INT8, rdf_data = [0]\<rparr>,
        \<lparr>rdf_type = LDNS_RDF_TYPE_HEX, rdf_data = d\<rparr>]\<rparr>"



text \<open>
  A zone whose ZONEMD record of digest type 1 stores no digest bytes at all, while the
  record of the unsupported type 2 before it stores the digest of the zone.
\<close>

definition ex_short_digest :: "byte list" where
  "ex_short_digest =
     sha384 (ldns_rr2wire ex_soa @ ldns_rr2wire (ex_zonemd 1 (replicate 48 0))
               @ ldns_rr2wire (ex_zonemd 2 (replicate 48 0)))"

definition ex_short_zone :: "ldns_rr list" where
  "ex_short_zone = [ex_soa, ex_zonemd 2 ex_short_digest, ex_zonemd 1 []]"

text \<open>
  The tree of depth 1 and width 13 that holds the SOA record alone: the root, and the
  leaf of the name \<open>example.\<close> at branch 10.
\<close>

definition ex_leaf :: "bool \<Rightarrow> zonemd_tree" where
  "ex_leaf d = Node (Some [ex_soa]) None (replicate 64 0) d"

definition ex_root :: "byte list \<Rightarrow> bool \<Rightarrow> zonemd_tree" where
  "ex_root dg d =
     Node None (Some (replicate 10 None @ [Some (ex_leaf d)] @ replicate 2 None)) dg d"

section \<open>Evaluation on the small zone\<close>

lemma be_bytes_0: "be_bytes 0 w = []"
  by (subst be_bytes.simps) simp

lemma be_bytes_Suc: "be_bytes (Suc n) w = be_bytes n (w div 256) @ [w mod 256]"
  by (subst be_bytes.simps) simp

lemma be_bytes_numeral:
  "be_bytes (numeral k) w = be_bytes (pred_numeral k) (w div 256) @ [w mod 256]"
  unfolding numeral_eq_Suc [of k] by (rule be_bytes_Suc)

lemmas be_bytes_eval = be_bytes_0 be_bytes_Suc be_bytes_numeral

lemma three_way_eq_0 [simp]: "three_way a b = 0 \<longleftrightarrow> a = b"
  by (simp add: three_way_def)

lemma ldns_dname_compare_eq_0: "ldns_dname_compare a b = 0 \<longleftrightarrow> dname_key a = dname_key b"
  by (simp add: ldns_dname_compare_def)

lemma ldns_rr_compare_eq_0: "ldns_rr_compare a b = 0 \<longleftrightarrow> rr_key a = rr_key b"
  by (simp add: ldns_rr_compare_def)

lemmas ex_defs = ex_origin_def ex_www_def ex_mail_def ex_other_def ex_cfg_def ex_soa_def
  ex_a_def ex_txt_def ex_zonemd_def ex_rrsig_def

lemmas rr_consts = LDNS_RR_TYPE_SOA_def LDNS_RR_TYPE_RRSIG_def LDNS_RR_TYPE_ZONEMD_def
  ZONEMD_RR_TYPE_def EVP_MAX_MD_SIZE_def

section \<open>Verify and calculate without a ZONEMD record\<close>

text \<open>
  C7. The claim: calculate and verify fail with a NoZonemd error when the zone has no
  ZONEMD record at the apex. The code: \<open>zonemd_rr_find\<close> never returns NULL, so the
  test that would raise the error never fires; with no apex ZONEMD record both loops
  run zero times, \<open>do_verify\<close> returns 0 with no message, \<open>do_calculate\<close> returns with the
  store as it was, and the exit status of a verify run is 0.
\<close>

theorem no_zonemd_verify_succeeds:
  assumes "filter (is_apex_zonemd cfg) the_rrlist = []"
  shows "do_verify cfg the_soa the_rrlist stack = Inr (the_rrlist, 0, [])
       \<and> do_calculate cfg the_rrlist = Inr the_rrlist
       \<and> main_exit_status True cfg the_soa the_rrlist stack = Inr 0"
proof -
  have v: "do_verify cfg the_soa the_rrlist stack = Inr (the_rrlist, 0, [])"
    using assms by (simp add: do_verify_def zonemd_rr_find_def)
  have "filter (\<lambda>(q, rr). is_apex_zonemd cfg rr) (zip [0..<length the_rrlist] the_rrlist) = []"
    using assms by (auto simp: filter_empty_conv dest: set_zip_rightD)
  then have c: "do_calculate cfg the_rrlist = Inr the_rrlist"
    by (simp add: do_calculate_def zonemd_rr_find_def)
  from v c show ?thesis by (simp add: main_exit_status_def)
qed

theorem no_zonemd_verify_succeeds_witness:
  "filter (is_apex_zonemd (ex_cfg 0)) [ex_soa, ex_a ex_www 1] = []
   \<and> do_verify (ex_cfg 0) ex_soa [ex_soa, ex_a ex_www 1] (replicate 64 0)
       = Inr ([ex_soa, ex_a ex_www 1], 0, [])
   \<and> do_calculate (ex_cfg 0) [ex_soa, ex_a ex_www 1] = Inr [ex_soa, ex_a ex_www 1]
   \<and> main_exit_status True (ex_cfg 0) ex_soa [ex_soa, ex_a ex_www 1] (replicate 64 0) = Inr 0"
proof -
  have h: "filter (is_apex_zonemd (ex_cfg 0)) [ex_soa, ex_a ex_www 1] = []"
    by (simp add: is_apex_zonemd_def ex_defs rr_consts)
  show ?thesis using h no_zonemd_verify_succeeds [OF h, of ex_soa "replicate 64 0"] by simp
qed

section \<open>The update script\<close>

text \<open>
  C9. The claim: a \<open>del\<close> line removes a matching record from the store, or warns when
  there is none. The code: the line is counted as a deletion and nothing else happens;
  the store is the one before the line, with every record still in it, and there is no
  warning.
\<close>

theorem del_line_removes_nothing:
  "zonemd_zone_update add [Line ''del'' (Some rr)] st = Inr (st, 0, 1, [])"
  by (simp add: zonemd_zone_update_def)

text \<open>
  C10. A record outside the zone is ignored, with a warning, by the loop that loads the
  zone file, whatever the store; an \<open>add\<close> line of the update script passes its record
  to \<open>zonemd_add_rr\<close> without any test, so in flat mode the record is in the store
  afterwards and the store no longer holds only records at or below the origin.
\<close>

theorem update_add_skips_zone_check:
  assumes "\<not> in_zone cfg rr"
  shows "read_zone_loop add cfg [rr] st = Inr (st, 0, [rr])
       \<and> zonemd_zone_update add [Line ''add'' (Some rr)] st =
           (case add rr st of Inl e \<Rightarrow> Inl e | Inr st' \<Rightarrow> Inr (st', 1, 0, []))
       \<and> zonemd_zone_update zonemd_add_rr_flat [Line ''add'' (Some rr)] the_rrlist =
           Inr (the_rrlist @ [rr], 1, 0, [])
       \<and> \<not> list_all (in_zone cfg) (the_rrlist @ [rr])"
  using assms
  by (auto simp: zonemd_zone_update_def zonemd_add_rr_flat_def in_zone_def split: sum.splits)

theorem update_add_skips_zone_check_witness:
  "\<not> in_zone (ex_cfg 0) (ex_a ex_other 1)
   \<and> list_all (in_zone (ex_cfg 0)) [ex_soa]
   \<and> read_zone_loop zonemd_add_rr_flat (ex_cfg 0) [ex_a ex_other 1] [ex_soa]
       = Inr ([ex_soa], 0, [ex_a ex_other 1])
   \<and> zonemd_zone_update zonemd_add_rr_flat [Line ''add'' (Some (ex_a ex_other 1))] [ex_soa]
       = Inr ([ex_soa, ex_a ex_other 1], 1, 0, [])
   \<and> \<not> list_all (in_zone (ex_cfg 0)) [ex_soa, ex_a ex_other 1]"
proof -
  have h: "\<not> in_zone (ex_cfg 0) (ex_a ex_other 1)"
    by (simp add: in_zone_def ldns_dname_compare_eq_0 ldns_dname_is_subdomain_def
        dname_key_def lower_byte_def ex_defs)
  have z: "list_all (in_zone (ex_cfg 0)) [ex_soa]"
    by (simp add: in_zone_def ldns_dname_compare_eq_0 ex_defs)
  show ?thesis
    using h z update_add_skips_zone_check [OF h, of zonemd_add_rr_flat "[ex_soa]" "[ex_soa]"]
    by (simp add: zonemd_add_rr_flat_def)
qed

section \<open>Sorting\<close>

lemma insort_key_append_less:
  "\<forall>a\<in>set as. f a < f x \<Longrightarrow> insort_key f x (as @ cs) = as @ insort_key f x cs"
  by (induction as) auto

lemma insort_key_append_le:
  "cs = [] \<or> f x \<le> f (hd cs) \<Longrightarrow> insort_key f x (as @ cs) = insort_key f x as @ cs"
proof (induction as)
  case Nil
  then show ?case by (cases cs) auto
next
  case (Cons a as)
  then show ?case by auto
qed

lemma insort_key_split:
  "\<exists>as bs. insort_key f r s = as @ r # bs \<and> s = as @ bs
     \<and> (\<forall>a\<in>set as. f a < f r) \<and> (bs = [] \<or> f r \<le> f (hd bs))"
proof (induction s)
  case Nil
  show ?case by simp
next
  case (Cons y s)
  show ?case
  proof (cases "f r \<le> f y")
    case True
    then have "insort_key f r (y # s) = [] @ r # (y # s)" by simp
    with True show ?thesis by (intro exI [of _ "[]"] exI [of _ "y # s"]) simp
  next
    case False
    from Cons obtain as bs where
      h: "insort_key f r s = as @ r # bs" "s = as @ bs" "\<forall>a\<in>set as. f a < f r"
         "bs = [] \<or> f r \<le> f (hd bs)" by blast
    with False show ?thesis
      by (intro exI [of _ "y # as"] exI [of _ bs]) auto
  qed
qed

lemma sort_key_split:
  "\<exists>as bs. sort_key f (xs @ r # ys) = as @ r # bs \<and> sort_key f (xs @ ys) = as @ bs
     \<and> (\<forall>a\<in>set as. f a \<le> f r) \<and> (\<forall>b\<in>set bs. f r \<le> f b)
     \<and> (\<forall>b\<in>set bs. f b = f r \<longrightarrow> b \<in> set ys)"
proof (induction xs)
  case Nil
  obtain as bs where
    h: "insort_key f r (sort_key f ys) = as @ r # bs" "sort_key f ys = as @ bs"
       "\<forall>a\<in>set as. f a < f r" "bs = [] \<or> f r \<le> f (hd bs)"
    using insort_key_split [of f r "sort_key f ys"] by blast
  have srt: "sorted (map f (as @ bs))" using h(2) sorted_sort_key [of f ys] by simp
  have ge: "\<forall>b\<in>set bs. f r \<le> f b"
  proof (cases bs)
    case Nil then show ?thesis by simp
  next
    case (Cons b bs')
    with h(4) have "f r \<le> f b" by simp
    moreover have "\<forall>c\<in>set bs'. f b \<le> f c" using srt Cons by (auto simp: sorted_append)
    ultimately show ?thesis using Cons by auto
  qed
  have "set bs \<subseteq> set ys" using h(2) set_sort [of f ys] by auto
  with h ge show ?case
    by (intro exI [of _ as] exI [of _ bs]) (auto simp: less_imp_le)
next
  case (Cons x xs)
  then obtain as bs where
    h: "sort_key f (xs @ r # ys) = as @ r # bs" "sort_key f (xs @ ys) = as @ bs"
       "\<forall>a\<in>set as. f a \<le> f r" "\<forall>b\<in>set bs. f r \<le> f b"
       "\<forall>b\<in>set bs. f b = f r \<longrightarrow> b \<in> set ys" by blast
  show ?case
  proof (cases "f x \<le> f r")
    case True
    have 1: "insort_key f x (as @ r # bs) = insort_key f x as @ r # bs"
      using True by (intro insort_key_append_le) simp
    have 2: "insort_key f x (as @ bs) = insort_key f x as @ bs"
      using True h(4) by (intro insort_key_append_le) (cases bs; auto)
    show ?thesis
      using h True 1 2
      by (intro exI [of _ "insort_key f x as"] exI [of _ bs]) (auto simp: set_insort_key)
  next
    case False
    then have lt: "f r < f x" by simp
    have 1: "insort_key f x ((as @ [r]) @ bs) = (as @ [r]) @ insort_key f x bs"
      using lt h(3) by (intro insort_key_append_less) auto
    have 2: "insort_key f x (as @ bs) = as @ insort_key f x bs"
      using lt h(3) by (intro insort_key_append_less) auto
    show ?thesis
      using h lt 1 2
      by (intro exI [of _ as] exI [of _ "insort_key f x bs"]) (auto simp: set_insort_key)
  qed
qed

section \<open>The loop of the canonicalizer\<close>

lemma digest_loop_append:
  "digest_loop cfg prev (as @ bs) =
     (case digest_loop cfg prev as of
        Inl e \<Rightarrow> Inl e
      | Inr (f1, w1) \<Rightarrow>
          (case digest_loop cfg (prev_after prev as) bs of
             Inl e \<Rightarrow> Inl e
           | Inr (f2, w2) \<Rightarrow> Inr (f1 @ f2, w1 @ w2)))"
  by (induction as arbitrary: prev) (auto split: sum.splits bool.splits)

lemma prev_after_key:
  "as \<noteq> [] \<Longrightarrow> \<exists>p. prev_after prev as = Some p \<and> rr_key p = rr_key (last as)"
proof (induction as arbitrary: prev)
  case Nil
  then show ?case by simp
next
  case (Cons a as)
  show ?case
  proof (cases "as = []")
    case True
    then show ?thesis by (auto simp: ldns_rr_compare_eq_0 split: option.splits)
  next
    case False
    with Cons.IH show ?thesis by simp
  qed
qed

lemma digest_loop_not_dup:
  "(case prev of None \<Rightarrow> True | Some p \<Rightarrow> rr_key b \<noteq> rr_key p) \<Longrightarrow>
   (case prev' of None \<Rightarrow> True | Some p \<Rightarrow> rr_key b \<noteq> rr_key p) \<Longrightarrow>
   digest_loop cfg prev (b # bs) = digest_loop cfg prev' (b # bs)"
  by (auto simp: ldns_rr_compare_eq_0 split: option.splits)



section \<open>Duplicate records\<close>

lemma sorted_le_last:
  "sorted (map f as) \<Longrightarrow> x \<in> set as \<Longrightarrow> f x \<le> f (last as)"
  by (induction as) (auto split: if_splits)

lemma duplicate_loop:
  assumes "r \<in> set zone"
  shows "\<exists>as bs p. ldns_rr_list_sort (zone @ [r]) = as @ r # bs
        \<and> ldns_rr_list_sort zone = as @ bs
        \<and> prev_after None as = Some p \<and> rr_key p = rr_key r"
proof -
  obtain as bs where
    h: "sort_key rr_key (zone @ r # []) = as @ r # bs" "sort_key rr_key (zone @ []) = as @ bs"
       "\<forall>a\<in>set as. rr_key a \<le> rr_key r" "\<forall>b\<in>set bs. rr_key r \<le> rr_key b"
       "\<forall>b\<in>set bs. rr_key b = rr_key r \<longrightarrow> b \<in> set []"
    using sort_key_split [of rr_key zone r "[]"] by blast
  have "r \<in> set (as @ bs)" using h(2) assms set_sort [of rr_key zone] by simp
  moreover have "r \<notin> set bs" using h(5) by auto
  ultimately have mem: "r \<in> set as" by simp
  then have ne: "as \<noteq> []" by auto
  have "sorted (map rr_key (as @ bs))" using h(2) sorted_sort_key [of rr_key zone] by simp
  then have "sorted (map rr_key as)" by (simp add: sorted_append)
  then have "rr_key r \<le> rr_key (last as)" using mem by (rule sorted_le_last)
  moreover have "rr_key (last as) \<le> rr_key r" using h(3) ne by simp
  ultimately have k: "rr_key (last as) = rr_key r" by simp
  obtain p where "prev_after None as = Some p" "rr_key p = rr_key (last as)"
    using prev_after_key [OF ne] by blast
  with k h(1,2) show ?thesis
    by (intro exI [of _ as] exI [of _ bs] exI [of _ p]) (simp add: ldns_rr_list_sort_def)
qed

lemma duplicate_rrlist_digest:
  assumes "r \<in> set zone"
  shows "map_sum id (\<lambda>(s, fed, w). fed) (zonemd_rrlist_digest cfg (zone @ [r]))
       = map_sum id (\<lambda>(s, fed, w). fed) (zonemd_rrlist_digest cfg zone)
   \<and> (\<forall>s fed w. zonemd_rrlist_digest cfg (zone @ [r]) = Inr (s, fed, w) \<longrightarrow> r \<in> set w)"
proof -
  obtain as bs p where
    h: "ldns_rr_list_sort (zone @ [r]) = as @ r # bs" "ldns_rr_list_sort zone = as @ bs"
       "prev_after None as = Some p" "rr_key p = rr_key r"
    using duplicate_loop [OF assms] by blast
  have dup: "digest_loop cfg (Some p) (r # bs) =
      (case digest_loop cfg (Some p) bs of Inl e \<Rightarrow> Inl e | Inr (f, w) \<Rightarrow> Inr (f, r # w))"
    using h(4) by (simp add: ldns_rr_compare_eq_0)
  have L: "digest_loop cfg None (as @ r # bs) =
     (case digest_loop cfg None as of
        Inl e \<Rightarrow> Inl e
      | Inr (f1, w1) \<Rightarrow>
          (case digest_loop cfg (Some p) bs of
             Inl e \<Rightarrow> Inl e
           | Inr (f2, w2) \<Rightarrow> Inr (f1 @ f2, w1 @ r # w2)))"
    unfolding digest_loop_append [of cfg None as] h(3) dup
    by (simp split: sum.splits)
  have R: "digest_loop cfg None (as @ bs) =
     (case digest_loop cfg None as of
        Inl e \<Rightarrow> Inl e
      | Inr (f1, w1) \<Rightarrow>
          (case digest_loop cfg (Some p) bs of
             Inl e \<Rightarrow> Inl e
           | Inr (f2, w2) \<Rightarrow> Inr (f1 @ f2, w1 @ w2)))"
    unfolding digest_loop_append [of cfg None as] h(3) by simp
  show ?thesis
    unfolding zonemd_rrlist_digest_def Let_def h(1,2) L R
    by (auto split: sum.splits)
qed

text \<open>
  In the build without \<open>ZONEMD_INCREMENTAL\<close>, adding to the store a record that is
  already in it leaves the digest as it was (or the error, when the computation fails):
  the sort puts the copy behind the records that compare equal to it, and the loop
  skips it with the warning "Ignoring duplicate RR".
\<close>

theorem duplicate_idempotent:
  assumes "r \<in> set the_rrlist"
  shows "zonemd_add_rr_flat r the_rrlist = Inr (the_rrlist @ [r])
       \<and> digest_of (zonemd_calc_digest_flat cfg md (the_rrlist @ [r]))
           = digest_of (zonemd_calc_digest_flat cfg md the_rrlist)
       \<and> (\<forall>s d w. zonemd_calc_digest_flat cfg md (the_rrlist @ [r]) = Inr (s, d, w)
             \<longrightarrow> r \<in> set w)"
  using duplicate_rrlist_digest [OF assms, of cfg]
  by (auto simp: zonemd_add_rr_flat_def zonemd_calc_digest_flat_def digest_of_def
      split: sum.splits)

theorem duplicate_idempotent_witness:
  "ex_txt \<in> set [ex_soa, ex_txt]
   \<and> zonemd_add_rr_flat ex_txt [ex_soa, ex_txt] = Inr [ex_soa, ex_txt, ex_txt]
   \<and> digest_of (zonemd_calc_digest_flat (ex_cfg 0) EVP_sha384 [ex_soa, ex_txt, ex_txt])
       = digest_of (zonemd_calc_digest_flat (ex_cfg 0) EVP_sha384 [ex_soa, ex_txt])"
proof -
  have h: "ex_txt \<in> set [ex_soa, ex_txt]" by simp
  show ?thesis using h duplicate_idempotent [OF h, of "ex_cfg 0" EVP_sha384] by simp
qed

section \<open>Signatures over ZONEMD\<close>






section \<open>The ZONEMD record in its own digest\<close>

lemma length_be_bytes [simp]: "length (be_bytes n w) = n"
  by (induction n arbitrary: w) (simp_all add: be_bytes_0 be_bytes_Suc)

lemma be_bytes_mod: "be_bytes n (w mod 256 ^ n) = be_bytes n w"
proof (induction n arbitrary: w)
  case 0
  show ?case by (simp add: be_bytes_0)
next
  case (Suc n)
  have "(w mod 256 ^ Suc n) div 256 = (w div 256) mod 256 ^ n"
    by (simp add: div_mult2_eq mod_mult2_eq)
  moreover have "(w mod 256 ^ Suc n) mod 256 = w mod 256"
    by (simp add: mod_mod_cancel)
  ultimately show ?case using Suc [of "w div 256"] by (simp add: be_bytes_Suc)
qed

lemma be_nat_append: "be_nat (xs @ ys) acc = be_nat ys (be_nat xs acc)"
  by (induction xs arbitrary: acc) simp_all

lemma be_nat_be_bytes: "be_nat (be_bytes n w) acc = acc * 256 ^ n + w mod 256 ^ n"
proof (induction n arbitrary: w)
  case 0
  show ?case by (simp add: be_bytes_0)
next
  case (Suc n)
  have "256 * (w div 256 mod 256 ^ n) + w mod 256 = w mod (256 * 256 ^ n)"
    by (simp add: mod_mult2_eq)
  with Suc [of "w div 256"] show ?case
    by (simp add: be_bytes_Suc be_nat_append algebra_simps)
qed

lemma unpack_pack:
  "zonemd_rr_unpack cfg (zonemd_rr_pack cfg rr s t dg n) cap =
     Inr (s mod 256 ^ 4, t mod 256,
          take (uimin cap (length (case dg of None \<Rightarrow> replicate n 0 | Some b \<Rightarrow> take n b)))
            (case dg of None \<Rightarrow> replicate n 0 | Some b \<Rightarrow> take n b))"
proof -
  have t4: "be_nat (be_bytes 4 s) 0 = s mod 256 ^ 4"
    using be_nat_be_bytes [of 4 s 0] by simp
  have n1: "be_bytes (Suc 0) t = [t mod 256]"
    using be_bytes_Suc [of 0 t] by (simp add: be_bytes_0)
  show ?thesis
    by (cases "ldns_knows_about_zonemd cfg")
       (simp_all add: zonemd_rr_unpack_def zonemd_rr_pack_def Let_def ldns_rr_rdf_def
          ldns_rdf2native_int32_def ldns_rdf2native_int8_def t4 n1 nth_append)
qed

lemma pack_pack:
  "zonemd_rr_pack cfg (zonemd_rr_pack cfg rr s t dg n) (s mod 256 ^ 4) t' dg' n'
     = zonemd_rr_pack cfg rr s t' dg' n'"
  using be_bytes_mod [of 4 s] by (simp add: zonemd_rr_pack_def Let_def)

lemma zeroized_update:
  assumes apex: "is_apex_zonemd cfg z"
    and upd: "zonemd_rr_update_digest cfg z 1 dg n = Inr z'"
  shows "zonemd_zeroized cfg z' = zonemd_zeroized cfg z"
    and "is_apex_zonemd cfg z'"
    and "rr_owner z' = rr_owner z" and "rr_class z' = rr_class z" and "rr_type z' = rr_type z"
proof -
  from upd obtain s old where
    u: "zonemd_rr_unpack cfg z EVP_MAX_MD_SIZE = Inr (s, 1, old)"
    and z': "z' = zonemd_rr_pack cfg z s 1 dg n"
    by (auto simp: zonemd_rr_update_digest_def split: sum.splits if_splits)
  show o: "rr_owner z' = rr_owner z" "rr_class z' = rr_class z" "rr_type z' = rr_type z"
    by (simp_all add: z' zonemd_rr_pack_def Let_def)
  then show ap: "is_apex_zonemd cfg z'" using apex by (simp add: is_apex_zonemd_def)
  have u': "zonemd_rr_unpack cfg z' EVP_MAX_MD_SIZE = Inr (s mod 256 ^ 4, 1,
       take (uimin EVP_MAX_MD_SIZE (length (case dg of None \<Rightarrow> replicate n 0 | Some b \<Rightarrow> take n b)))
            (case dg of None \<Rightarrow> replicate n 0 | Some b \<Rightarrow> take n b))"
    unfolding z' unpack_pack by simp
  have "zonemd_zeroized cfg z = Inr (zonemd_rr_pack cfg z s 1 None 48)"
    using apex u
    by (simp add: zonemd_zeroized_def is_apex_zonemd_def zonemd_rr_update_digest_def
        zonemd_digester_def EVP_sha384_def ZONEMD_RR_TYPE_def LDNS_RR_TYPE_ZONEMD_def)
  moreover have "zonemd_zeroized cfg z' = Inr (zonemd_rr_pack cfg z' (s mod 256 ^ 4) 1 None 48)"
    using ap u'
    by (simp add: zonemd_zeroized_def is_apex_zonemd_def zonemd_rr_update_digest_def
        zonemd_digester_def EVP_sha384_def ZONEMD_RR_TYPE_def LDNS_RR_TYPE_ZONEMD_def)
  ultimately show "zonemd_zeroized cfg z' = zonemd_zeroized cfg z"
    unfolding z' pack_pack by simp
qed

lemma split_unique:
  assumes "as @ bs = as' @ bs'"
    and "\<forall>a\<in>set as. P a" "\<forall>b\<in>set bs. \<not> P b"
    and "\<forall>a\<in>set as'. P a" "\<forall>b\<in>set bs'. \<not> P b"
  shows "as = as' \<and> bs = bs'"
proof -
  have 1: "takeWhile P (as @ bs) = as"
    using assms(2,3) by (cases bs) simp_all
  have 2: "takeWhile P (as' @ bs') = as'"
    using assms(4,5) by (cases bs') simp_all
  from 1 2 assms(1) have "as = as'" by simp
  with assms(1) show ?thesis by simp
qed

lemma take_neq_less:
  fixes x :: "'a::linorder list"
  assumes "take n x \<noteq> take n a" and "take n a = take n b"
  shows "x < a \<longleftrightarrow> x < b"
  using assms
proof (induction n arbitrary: x a b)
  case 0
  then show ?case by simp
next
  case (Suc n)
  show ?case
  proof (cases x)
    case Nil
    with Suc.prems show ?thesis by (cases a; cases b) auto
  next
    case x: (Cons x0 xs)
    show ?thesis
    proof (cases a)
      case Nil
      with Suc.prems have "b = []" by (cases b) auto
      with Nil show ?thesis by simp
    next
      case a: (Cons a0 as)
      with Suc.prems obtain bs where b: "b = a0 # bs" "take n as = take n bs"
        by (cases b) auto
      show ?thesis
      proof (cases "x0 = a0")
        case True
        with Suc.prems(1) x a have "take n xs \<noteq> take n as" by simp
        from Suc.IH [OF this b(2)] True x a b show ?thesis by simp
      next
        case False
        with x a b show ?thesis by simp
      qed
    qed
  qed
qed

lemma other_key:
  assumes "is_apex_zonemd cfg z"
    and "rr_owner z' = rr_owner z" and "rr_class z' = rr_class z" and "rr_type z' = rr_type z"
    and "serial_and_type z' = serial_and_type z"
    and "is_apex_zonemd cfg x \<and> rr_class x = rr_class z
           \<longrightarrow> serial_and_type x \<noteq> serial_and_type z"
  shows "rr_key x \<noteq> rr_key z \<and> rr_key x \<noteq> rr_key z'
       \<and> (rr_key x < rr_key z \<longleftrightarrow> rr_key x < rr_key z')"
proof (cases "dname_key (rr_owner x) = dname_key (rr_owner z) \<and> rr_class x = rr_class z
              \<and> rr_type x = rr_type z")
  case True
  with assms(1) have "is_apex_zonemd cfg x"
    by (simp add: is_apex_zonemd_def ldns_dname_compare_def)
  with True assms(6) have d: "take 5 (rdata_wire x) \<noteq> take 5 (rdata_wire z)"
    by (simp add: serial_and_type_def)
  from assms(5) have e: "take 5 (rdata_wire z) = take 5 (rdata_wire z')"
    by (simp add: serial_and_type_def)
  from d e have "rdata_wire x \<noteq> rdata_wire z" "rdata_wire x \<noteq> rdata_wire z'"
    by auto
  moreover have "rdata_wire x < rdata_wire z \<longleftrightarrow> rdata_wire x < rdata_wire z'"
    using d e by (rule take_neq_less)
  ultimately show ?thesis
    using True assms(2,3,4) by (simp add: rr_key_def less_prod_def)
next
  case False
  then show ?thesis
    using assms(2,3,4) by (auto simp: rr_key_def less_prod_def)
qed

lemma zonemd_digest_loop:
  assumes apex: "is_apex_zonemd cfg z"
    and upd: "zonemd_rr_update_digest cfg z 1 dg n = Inr z'"
    and same: "serial_and_type z' = serial_and_type z"
    and uniq: "\<forall>x\<in>set (xs @ ys). is_apex_zonemd cfg x \<and> rr_class x = rr_class z
                 \<longrightarrow> serial_and_type x \<noteq> serial_and_type z"
  shows "digest_loop cfg None (ldns_rr_list_sort (xs @ z' # ys))
       = digest_loop cfg None (ldns_rr_list_sort (xs @ z # ys))"
proof -
  note zu = zeroized_update [OF apex upd]
  have nk: "rr_key x \<noteq> rr_key z \<and> rr_key x \<noteq> rr_key z'
       \<and> (rr_key x < rr_key z \<longleftrightarrow> rr_key x < rr_key z')" if "x \<in> set (xs @ ys)" for x
  proof -
    from uniq that have "is_apex_zonemd cfg x \<and> rr_class x = rr_class z
        \<longrightarrow> serial_and_type x \<noteq> serial_and_type z" by blast
    with apex zu(3,4,5) same show ?thesis by (rule other_key)
  qed
  obtain as bs where
    h: "sort_key rr_key (xs @ z # ys) = as @ z # bs" "sort_key rr_key (xs @ ys) = as @ bs"
       "\<forall>a\<in>set as. rr_key a \<le> rr_key z" "\<forall>b\<in>set bs. rr_key z \<le> rr_key b"
    using sort_key_split [of rr_key xs z ys] by blast
  obtain as' bs' where
    h': "sort_key rr_key (xs @ z' # ys) = as' @ z' # bs'" "sort_key rr_key (xs @ ys) = as' @ bs'"
       "\<forall>a\<in>set as'. rr_key a \<le> rr_key z'" "\<forall>b\<in>set bs'. rr_key z' \<le> rr_key b"
    using sort_key_split [of rr_key xs z' ys] by blast
  have mem: "set (as @ bs) = set (xs @ ys)" "set (as' @ bs') = set (xs @ ys)"
    using h(2) h'(2) set_sort [of rr_key "xs @ ys"] by simp_all
  have na: "\<forall>x\<in>set (as @ bs). rr_key x \<noteq> rr_key z \<and> rr_key x \<noteq> rr_key z'
       \<and> (rr_key x < rr_key z \<longleftrightarrow> rr_key x < rr_key z')"
    using nk mem by blast
  have na': "\<forall>x\<in>set (as' @ bs'). rr_key x \<noteq> rr_key z \<and> rr_key x \<noteq> rr_key z'
       \<and> (rr_key x < rr_key z \<longleftrightarrow> rr_key x < rr_key z')"
    using nk mem by blast
  have P1: "\<forall>a\<in>set as. rr_key a < rr_key z" "\<forall>b\<in>set bs. \<not> rr_key b < rr_key z"
    using h(3,4) na by (auto simp: less_le)
  have P2: "\<forall>a\<in>set as'. rr_key a < rr_key z" "\<forall>b\<in>set bs'. \<not> rr_key b < rr_key z"
  proof -
    show "\<forall>a\<in>set as'. rr_key a < rr_key z"
    proof
      fix a assume a: "a \<in> set as'"
      with h'(3) na' have "rr_key a < rr_key z'" by (auto simp: less_le)
      with a na' show "rr_key a < rr_key z" by auto
    qed
    show "\<forall>b\<in>set bs'. \<not> rr_key b < rr_key z"
    proof
      fix b assume b: "b \<in> set bs'"
      with h'(4) have "\<not> rr_key b < rr_key z'" by auto
      with b na' show "\<not> rr_key b < rr_key z" by auto
    qed
  qed
  have "as @ bs = as' @ bs'" using h(2) h'(2) by simp
  then have same_split: "as = as' \<and> bs = bs'"
    using P1 P2 by (rule split_unique)
  define p where "p = prev_after None as"
  have pk: "case p of None \<Rightarrow> True | Some q \<Rightarrow> rr_key z \<noteq> rr_key q \<and> rr_key z' \<noteq> rr_key q"
  proof (cases "as = []")
    case True
    then show ?thesis by (simp add: p_def)
  next
    case False
    then obtain q where q: "p = Some q" "rr_key q = rr_key (last as)"
      unfolding p_def using prev_after_key by blast
    have "last as \<in> set (as @ bs)" using False by simp
    with na have "rr_key (last as) \<noteq> rr_key z \<and> rr_key (last as) \<noteq> rr_key z'" by blast
    with q show ?thesis by auto
  qed
  have nr: "rrsig_over_zonemd z = Inr False" "rrsig_over_zonemd z' = Inr False"
    using apex zu(2)
    by (simp_all add: rrsig_over_zonemd_def is_apex_zonemd_def ZONEMD_RR_TYPE_def
        LDNS_RR_TYPE_RRSIG_def)
  have rest: "digest_loop cfg (Some z') bs = digest_loop cfg (Some z) bs"
  proof (cases bs)
    case Nil
    then show ?thesis by simp
  next
    case (Cons b bs'')
    with na have "rr_key b \<noteq> rr_key z \<and> rr_key b \<noteq> rr_key z'" by simp
    then show ?thesis
      unfolding Cons by (intro digest_loop_not_dup) simp_all
  qed
  have "digest_loop cfg p (z' # bs) = digest_loop cfg p (z # bs)"
    using pk nr zu(1) rest
    by (auto simp: ldns_rr_compare_eq_0 split: option.splits sum.splits)
  then have "digest_loop cfg None (as @ z' # bs) = digest_loop cfg None (as @ z # bs)"
    unfolding digest_loop_append [of cfg None as] p_def by (simp only:)
  then show ?thesis
    unfolding ldns_rr_list_sort_def h(1) h'(1) using same_split by simp
qed

lemma be_bytes_be_nat:
  "\<forall>b\<in>set xs. b < 256 \<Longrightarrow> be_bytes (length xs) (be_nat xs 0) = xs"
proof (induction xs rule: rev_induct)
  case Nil
  show ?case by (simp add: be_bytes_0)
next
  case (snoc x xs)
  then show ?case by (simp add: be_nat_append be_bytes_Suc)
qed

text \<open>
  For a record as ldns parses it, with the serial in four bytes and the digest type in
  one, \<open>zonemd_rr_update_digest\<close> leaves the serial and the digest type on the wire as
  they are.
\<close>

lemma update_keeps_serial_and_type:
  assumes "ldns_knows_about_zonemd cfg"
    and "zonemd_rr_update_digest cfg z 1 new_digest n = Inr z'"
    and "rr_rdata z = r0 # r1 # rest"
    and "length (rdf_data r0) = 4" and "\<forall>b\<in>set (rdf_data r0). b < 256"
    and "length (rdf_data r1) = 1"
  shows "serial_and_type z' = serial_and_type z"
proof -
  from assms(6) obtain t where t: "rdf_data r1 = [t]"
    by (cases "rdf_data r1") auto
  from assms(2) obtain s old where
    u: "zonemd_rr_unpack cfg z EVP_MAX_MD_SIZE = Inr (s, 1, old)"
    and z': "z' = zonemd_rr_pack cfg z s 1 new_digest n"
    by (auto simp: zonemd_rr_update_digest_def split: sum.splits if_splits)
  from u assms(1,3,4) t have s: "s = be_nat (rdf_data r0) 0" and t1: "t = 1"
    by (auto simp: zonemd_rr_unpack_def ldns_rr_rdf_def ldns_rdf2native_int32_def
        ldns_rdf2native_int8_def split: option.splits if_splits)
  have "be_bytes 4 s = rdf_data r0"
    using be_bytes_be_nat [OF assms(5)] assms(4) s by simp
  then show ?thesis
    using assms(1,3,4) t t1
    by (simp add: serial_and_type_def rdata_wire_def z' zonemd_rr_pack_def Let_def
        be_bytes_eval)
qed

text \<open>
  C4 as amended, for the build without \<open>ZONEMD_INCREMENTAL\<close>. Let the store hold a
  ZONEMD record at the apex, of digest type 1, and let no other apex ZONEMD record of
  the same class have the same serial and digest type. Then the digest (or the error)
  does not depend on the digest bytes stored in that record, the serial and the type
  staying as they are, whatever the digest algorithm; the computation leaves the record
  in the store as it is; and writing a computed digest back with
  \<open>zonemd_rr_update_digest\<close> and computing again gives the same digest.
\<close>

theorem zonemd_digest_bytes_irrelevant:
  assumes "is_apex_zonemd cfg z"
    and "zonemd_rr_update_digest cfg z 1 new_digest n = Inr z'"
    and "serial_and_type z' = serial_and_type z"
    and "\<forall>x\<in>set (xs @ ys). is_apex_zonemd cfg x \<and> rr_class x = rr_class z
           \<longrightarrow> serial_and_type x \<noteq> serial_and_type z"
  shows "digest_of (zonemd_calc_digest_flat cfg md (xs @ z' # ys))
           = digest_of (zonemd_calc_digest_flat cfg md (xs @ z # ys))
       \<and> (\<forall>s d w. zonemd_calc_digest_flat cfg md (xs @ z # ys) = Inr (s, d, w)
             \<longrightarrow> z \<in> set s
               \<and> (new_digest = Some d
                    \<longrightarrow> digest_of (zonemd_calc_digest_flat cfg md (xs @ z' # ys)) = Inr d))"
proof -
  have 1: "digest_of (zonemd_calc_digest_flat cfg md (xs @ z' # ys))
           = digest_of (zonemd_calc_digest_flat cfg md (xs @ z # ys))"
    using zonemd_digest_loop [OF assms]
    by (simp add: zonemd_calc_digest_flat_def zonemd_rrlist_digest_def Let_def digest_of_def
        split: sum.splits)
  have 2: "z \<in> set s" if "zonemd_calc_digest_flat cfg md (xs @ z # ys) = Inr (s, d, w)" for s d w
    using that
    by (auto simp: zonemd_calc_digest_flat_def zonemd_rrlist_digest_def Let_def
        ldns_rr_list_sort_def split: sum.splits)
  show ?thesis using 1 2 by (auto simp: digest_of_def)
qed

theorem zonemd_digest_bytes_irrelevant_witness:
  "is_apex_zonemd (ex_cfg 0) (ex_zonemd 1 (replicate 48 0))
   \<and> zonemd_rr_update_digest (ex_cfg 0) (ex_zonemd 1 (replicate 48 0)) 1
        (Some (replicate 48 255)) 48 = Inr (ex_zonemd 1 (replicate 48 255))
   \<and> serial_and_type (ex_zonemd 1 (replicate 48 255)) = serial_and_type (ex_zonemd 1 (replicate 48 0))
   \<and> \<not> is_apex_zonemd (ex_cfg 0) ex_soa
   \<and> is_apex_zonemd (ex_cfg 0) (ex_zonemd 2 [222, 173, 190, 239])
   \<and> serial_and_type (ex_zonemd 2 [222, 173, 190, 239])
        \<noteq> serial_and_type (ex_zonemd 1 (replicate 48 0))
   \<and> \<not> is_apex_zonemd (ex_cfg 0) ex_txt
   \<and> digest_of (zonemd_calc_digest_flat (ex_cfg 0) EVP_sha384
         ([ex_soa, ex_zonemd 2 [222, 173, 190, 239]] @ ex_zonemd 1 (replicate 48 255) # [ex_txt]))
       = digest_of (zonemd_calc_digest_flat (ex_cfg 0) EVP_sha384
         ([ex_soa, ex_zonemd 2 [222, 173, 190, 239]] @ ex_zonemd 1 (replicate 48 0) # [ex_txt]))"
proof -
  have a: "is_apex_zonemd (ex_cfg 0) (ex_zonemd 1 (replicate 48 0))"
    by (simp add: is_apex_zonemd_def ldns_dname_compare_eq_0 ex_defs rr_consts)
  have b: "zonemd_rr_update_digest (ex_cfg 0) (ex_zonemd 1 (replicate 48 0)) 1
        (Some (replicate 48 255)) 48 = Inr (ex_zonemd 1 (replicate 48 255))"
    by (simp add: zonemd_rr_update_digest_def zonemd_rr_unpack_def zonemd_rr_pack_def
        ldns_rr_rdf_def ldns_rdf2native_int32_def ldns_rdf2native_int8_def uimin_def
        be_bytes_eval ex_defs rr_consts)
  have c: "serial_and_type (ex_zonemd 1 (replicate 48 255))
        = serial_and_type (ex_zonemd 1 (replicate 48 0))"
    by (simp add: serial_and_type_def rdata_wire_def ex_defs)
  have d1: "\<not> is_apex_zonemd (ex_cfg 0) ex_soa" "\<not> is_apex_zonemd (ex_cfg 0) ex_txt"
    by (simp_all add: is_apex_zonemd_def ex_defs rr_consts)
  have d2: "is_apex_zonemd (ex_cfg 0) (ex_zonemd 2 [222, 173, 190, 239])"
    by (simp add: is_apex_zonemd_def ldns_dname_compare_eq_0 ex_defs rr_consts)
  have d3: "serial_and_type (ex_zonemd 2 [222, 173, 190, 239])
        \<noteq> serial_and_type (ex_zonemd 1 (replicate 48 0))"
    by (simp add: serial_and_type_def rdata_wire_def ex_defs)
  have d: "\<forall>x\<in>set ([ex_soa, ex_zonemd 2 [222, 173, 190, 239]] @ [ex_txt]).
      is_apex_zonemd (ex_cfg 0) x \<and> rr_class x = rr_class (ex_zonemd 1 (replicate 48 0))
        \<longrightarrow> serial_and_type x \<noteq> serial_and_type (ex_zonemd 1 (replicate 48 0))"
    using d1 d3 by simp
  show ?thesis
    using a b c d1 d2 d3 zonemd_digest_bytes_irrelevant [OF a b c d, of EVP_sha384]
    by simp
qed

section \<open>Evaluating SHA-384\<close>

lemma length_round64 [simp]: "length (round64 s kw) = length s"
  by (induction s kw rule: round64.induct) (simp_all add: Let_def)

lemma length_foldl_round64 [simp]: "length (foldl round64 s l) = length s"
  by (induction l arbitrary: s) simp_all

lemma length_compress [simp]: "length (compress hs blk) = length hs"
  by (simp add: compress_def)

lemma length_foldl_compress [simp]: "length (foldl compress hs bl) = length hs"
  by (induction bl arbitrary: hs) simp_all

lemma length_concat_be_bytes [simp]: "length (concat (map (be_bytes n) ws)) = n * length ws"
  by (induction ws) simp_all

lemma length_sha384 [simp]: "length (sha384 m) = 48"
  by (simp add: sha384_def sha384_H0_def)

lemma replicate_numeral_eval: "replicate (numeral k) x = x # replicate (pred_numeral k) x"
  unfolding numeral_eq_Suc [of k] by simp

lemma list_update_numeral_eval: "(x # xs)[numeral k := y] = x # xs[pred_numeral k := y]"
  unfolding numeral_eq_Suc [of k] by simp

lemma trunc64_eval: "trunc64 x = take_bit 64 x"
  by (simp add: trunc64_def take_bit_eq_mod)

lemma rotr64_eval: "rotr64 n x = drop_bit n x + push_bit (64 - n) (take_bit n x)"
  by (simp add: rotr64_def drop_bit_eq_div take_bit_eq_mod push_bit_eq_mult)

lemma shr_eval: "(numeral a :: nat) div 2 ^ n = drop_bit n (numeral a)"
  by (simp add: drop_bit_eq_div)

lemmas sha_eval = sha384_def sha_pad_def blocks.simps be_bytes_eval compress_def schedule.simps
  sha512_K_def sha384_H0_def Let_def replicate_numeral_eval
  ssig0_def ssig1_def bsig0_def bsig1_def ch64_def maj64_def not64_def
  trunc64_eval rotr64_eval shr_eval

lemma sha384_soa:
  "sha384
     [7, 101, 120, 97, 109, 112, 108, 101, 0, 0, 6, 0, 1, 0, 0, 14, 16, 0, 30, 2, 110, 115, 0,
      4, 114, 111, 111, 116, 0, 0, 0, 0, 1, 0, 0, 14, 16, 0, 0, 2, 88, 0, 1, 81, 128, 0, 0, 14,
      16] =
     [98, 194, 213, 226, 3, 51, 127, 16, 56, 64, 96, 231, 248, 239, 134, 72, 228, 115, 139,
      124, 223, 247, 38, 72, 227, 3, 73, 232, 8, 251, 3, 170, 92, 213, 103, 80, 145, 175, 214,
      222, 144, 97, 72, 124, 56, 135, 251, 6]"
  by (simp add: sha_eval)

lemma sha384_soa_digest:
  "sha384
     [98, 194, 213, 226, 3, 51, 127, 16, 56, 64, 96, 231, 248, 239, 134, 72, 228, 115, 139,
      124, 223, 247, 38, 72, 227, 3, 73, 232, 8, 251, 3, 170, 92, 213, 103, 80, 145, 175, 214,
      222, 144, 97, 72, 124, 56, 135, 251, 6] =
     [254, 58, 74, 42, 58, 150, 126, 241, 171, 245, 134, 45, 157, 154, 145, 10, 58, 219, 255,
      103, 105, 205, 246, 103, 93, 157, 22, 70, 34, 160, 57, 253, 183, 198, 86, 186, 186, 179,
      175, 146, 58, 153, 208, 120, 245, 37, 174, 13]"
  by (simp add: sha_eval)

lemma sha384_www:
  "sha384
     [3, 119, 119, 119, 7, 101, 120, 97, 109, 112, 108, 101, 0, 0, 1, 0, 1, 0, 0, 14, 16, 0, 4,
      192, 0, 2, 1] =
     [153, 85, 74, 74, 176, 197, 130, 131, 83, 27, 127, 182, 104, 211, 99, 118, 73, 200, 109,
      180, 8, 61, 129, 245, 91, 161, 179, 193, 87, 39, 139, 113, 90, 109, 216, 61, 158, 103,
      115, 160, 78, 17, 52, 94, 239, 215, 222, 150]"
  by (simp add: sha_eval)

lemma sha384_root:
  "sha384
     [153, 85, 74, 74, 176, 197, 130, 131, 83, 27, 127, 182, 104, 211, 99, 118, 73, 200, 109,
      180, 8, 61, 129, 245, 91, 161, 179, 193, 87, 39, 139, 113, 90, 109, 216, 61, 158, 103,
      115, 160, 78, 17, 52, 94, 239, 215, 222, 150, 98, 194, 213, 226, 3, 51, 127, 16, 56, 64,
      96, 231, 248, 239, 134, 72, 228, 115, 139, 124, 223, 247, 38, 72, 227, 3, 73, 232, 8,
      251, 3, 170, 92, 213, 103, 80, 145, 175, 214, 222, 144, 97, 72, 124, 56, 135, 251, 6] =
     [36, 88, 4, 91, 132, 174, 85, 46, 255, 148, 196, 80, 36, 104, 58, 4, 235, 136, 30, 6, 32,
      18, 145, 77, 103, 217, 160, 52, 217, 185, 174, 83, 145, 49, 67, 147, 138, 9, 124, 34,
      207, 176, 155, 49, 237, 15, 74, 37]"
  by (simp add: sha_eval)

lemma sha384_soa_txt:
  "sha384
     [7, 101, 120, 97, 109, 112, 108, 101, 0, 0, 6, 0, 1, 0, 0, 14, 16, 0, 30, 2, 110, 115, 0,
      4, 114, 111, 111, 116, 0, 0, 0, 0, 1, 0, 0, 14, 16, 0, 0, 2, 88, 0, 1, 81, 128, 0, 0, 14,
      16, 7, 101, 120, 97, 109, 112, 108, 101, 0, 0, 16, 0, 1, 0, 0, 14, 16, 0, 2, 1, 120] =
     [111, 18, 177, 241, 237, 20, 132, 38, 52, 120, 102, 240, 190, 65, 203, 183, 247, 85, 228,
      55, 115, 1, 155, 80, 116, 103, 73, 30, 53, 21, 101, 122, 41, 11, 195, 211, 16, 88, 161,
      115, 48, 139, 43, 172, 175, 136, 40, 43]"
  by (simp add: sha_eval)

lemma sha384_stale:
  "sha384
     [36, 88, 4, 91, 132, 174, 85, 46, 255, 148, 196, 80, 36, 104, 58, 4, 235, 136, 30, 6, 32,
      18, 145, 77, 103, 217, 160, 52, 217, 185, 174, 83, 145, 49, 67, 147, 138, 9, 124, 34,
      207, 176, 155, 49, 237, 15, 74, 37, 111, 18, 177, 241, 237, 20, 132, 38, 52, 120, 102,
      240, 190, 65, 203, 183, 247, 85, 228, 55, 115, 1, 155, 80, 116, 103, 73, 30, 53, 21, 101,
      122, 41, 11, 195, 211, 16, 88, 161, 115, 48, 139, 43, 172, 175, 136, 40, 43] =
     [94, 179, 39, 71, 227, 89, 182, 89, 219, 196, 57, 237, 178, 43, 63, 87, 10, 215, 234, 108,
      2, 119, 205, 22, 236, 186, 12, 207, 225, 178, 230, 137, 31, 134, 169, 237, 130, 227, 5,
      10, 242, 9, 12, 13, 14, 165, 53, 91]"
  by (simp add: sha_eval)

lemma sha384_fresh:
  "sha384
     [153, 85, 74, 74, 176, 197, 130, 131, 83, 27, 127, 182, 104, 211, 99, 118, 73, 200, 109,
      180, 8, 61, 129, 245, 91, 161, 179, 193, 87, 39, 139, 113, 90, 109, 216, 61, 158, 103,
      115, 160, 78, 17, 52, 94, 239, 215, 222, 150, 111, 18, 177, 241, 237, 20, 132, 38, 52,
      120, 102, 240, 190, 65, 203, 183, 247, 85, 228, 55, 115, 1, 155, 80, 116, 103, 73, 30,
      53, 21, 101, 122, 41, 11, 195, 211, 16, 88, 161, 115, 48, 139, 43, 172, 175, 136, 40, 43] =
     [153, 15, 159, 70, 248, 145, 201, 82, 110, 235, 121, 212, 246, 148, 179, 106, 36, 6, 164,
      177, 189, 126, 25, 194, 64, 7, 155, 251, 184, 157, 98, 93, 15, 42, 214, 178, 6, 112, 204,
      189, 82, 226, 139, 183, 145, 26, 104, 149]"
  by (simp add: sha_eval)

lemma sha384_soa_zonemd:
  "sha384
     [7, 101, 120, 97, 109, 112, 108, 101, 0, 0, 6, 0, 1, 0, 0, 14, 16, 0, 30, 2, 110, 115, 0,
      4, 114, 111, 111, 116, 0, 0, 0, 0, 1, 0, 0, 14, 16, 0, 0, 2, 88, 0, 1, 81, 128, 0, 0, 14,
      16, 7, 101, 120, 97, 109, 112, 108, 101, 0, 0, 63, 0, 1, 0, 0, 14, 16, 0, 54, 0, 0, 0, 1,
      1, 0, 0, 0, 0, 0, 0, 0, 0, 0, 0, 0, 0, 0, 0, 0, 0, 0, 0, 0, 0, 0, 0, 0, 0, 0, 0, 0, 0, 0,
      0, 0, 0, 0, 0, 0, 0, 0, 0, 0, 0, 0, 0, 0, 0, 0, 0, 0, 0, 0] =
     [106, 54, 31, 249, 82, 207, 124, 254, 57, 52, 249, 158, 25, 143, 141, 88, 182, 229, 12,
      235, 226, 9, 56, 211, 129, 62, 163, 187, 95, 69, 63, 220, 143, 42, 64, 77, 212, 89, 107,
      134, 206, 146, 203, 240, 136, 88, 148, 255]"
  by (simp add: sha_eval)

lemma sha384_soa_zonemd_zonemd:
  "sha384
     [7, 101, 120, 97, 109, 112, 108, 101, 0, 0, 6, 0, 1, 0, 0, 14, 16, 0, 30, 2, 110, 115, 0,
      4, 114, 111, 111, 116, 0, 0, 0, 0, 1, 0, 0, 14, 16, 0, 0, 2, 88, 0, 1, 81, 128, 0, 0, 14,
      16, 7, 101, 120, 97, 109, 112, 108, 101, 0, 0, 63, 0, 1, 0, 0, 14, 16, 0, 54, 0, 0, 0, 1,
      1, 0, 0, 0, 0, 0, 0, 0, 0, 0, 0, 0, 0, 0, 0, 0, 0, 0, 0, 0, 0, 0, 0, 0, 0, 0, 0, 0, 0, 0,
      0, 0, 0, 0, 0, 0, 0, 0, 0, 0, 0, 0, 0, 0, 0, 0, 0, 0, 0, 0, 7, 101, 120, 97, 109, 112,
      108, 101, 0, 0, 63, 0, 1, 0, 0, 14, 16, 0, 54, 0, 0, 0, 1, 1, 0, 0, 0, 0, 0, 0, 0, 0, 0,
      0, 0, 0, 0, 0, 0, 0, 0, 0, 0, 0, 0, 0, 0, 0, 0, 0, 0, 0, 0, 0, 0, 0, 0, 0, 0, 0, 0, 0, 0,
      0, 0, 0, 0, 0, 0, 0, 0, 0, 0] =
     [46, 46, 146, 224, 137, 249, 219, 218, 133, 125, 26, 46, 243, 54, 99, 35, 131, 202, 174,
      51, 101, 202, 214, 103, 55, 152, 191, 31, 15, 13, 63, 99, 25, 157, 159, 95, 210, 30, 106,
      82, 159, 12, 255, 244, 13, 75, 114, 122]"
  by (simp add: sha_eval)



lemma sha384_mail:
  "sha384
     [4, 109, 97, 105, 108, 7, 101, 120, 97, 109, 112, 108, 101, 0, 0, 1, 0, 1, 0, 0, 14, 16,
      0, 4, 192, 0, 2, 1] =
     [182, 182, 212, 166, 102, 132, 221, 73, 157, 225, 174, 31, 188, 109, 110, 104, 255, 193,
      162, 98, 55, 211, 223, 69, 228, 1, 234, 150, 71, 64, 255, 111, 159, 111, 237, 118, 243,
      245, 47, 141, 21, 192, 243, 110, 60, 0, 161, 179]"
  by (simp add: sha_eval)

lemma sha384_www_mail_soa:
  "sha384
     [153, 85, 74, 74, 176, 197, 130, 131, 83, 27, 127, 182, 104, 211, 99, 118, 73, 200, 109,
      180, 8, 61, 129, 245, 91, 161, 179, 193, 87, 39, 139, 113, 90, 109, 216, 61, 158, 103,
      115, 160, 78, 17, 52, 94, 239, 215, 222, 150, 182, 182, 212, 166, 102, 132, 221, 73, 157,
      225, 174, 31, 188, 109, 110, 104, 255, 193, 162, 98, 55, 211, 223, 69, 228, 1, 234, 150,
      71, 64, 255, 111, 159, 111, 237, 118, 243, 245, 47, 141, 21, 192, 243, 110, 60, 0, 161,
      179, 98, 194, 213, 226, 3, 51, 127, 16, 56, 64, 96, 231, 248, 239, 134, 72, 228, 115,
      139, 124, 223, 247, 38, 72, 227, 3, 73, 232, 8, 251, 3, 170, 92, 213, 103, 80, 145, 175,
      214, 222, 144, 97, 72, 124, 56, 135, 251, 6] =
     [86, 62, 178, 112, 19, 211, 16, 237, 174, 71, 58, 231, 121, 153, 5, 159, 212, 47, 167, 26,
      47, 16, 115, 245, 114, 151, 142, 190, 145, 37, 168, 90, 111, 119, 220, 40, 195, 126, 189,
      139, 183, 255, 5, 162, 106, 105, 64, 17]"
  by (simp add: sha_eval)

lemma sha384_www_www_www:
  "sha384
     [153, 85, 74, 74, 176, 197, 130, 131, 83, 27, 127, 182, 104, 211, 99, 118, 73, 200, 109,
      180, 8, 61, 129, 245, 91, 161, 179, 193, 87, 39, 139, 113, 90, 109, 216, 61, 158, 103,
      115, 160, 78, 17, 52, 94, 239, 215, 222, 150, 153, 85, 74, 74, 176, 197, 130, 131, 83,
      27, 127, 182, 104, 211, 99, 118, 73, 200, 109, 180, 8, 61, 129, 245, 91, 161, 179, 193,
      87, 39, 139, 113, 90, 109, 216, 61, 158, 103, 115, 160, 78, 17, 52, 94, 239, 215, 222,
      150, 153, 85, 74, 74, 176, 197, 130, 131, 83, 27, 127, 182, 104, 211, 99, 118, 73, 200,
      109, 180, 8, 61, 129, 245, 91, 161, 179, 193, 87, 39, 139, 113, 90, 109, 216, 61, 158,
      103, 115, 160, 78, 17, 52, 94, 239, 215, 222, 150] =
     [93, 18, 124, 202, 235, 250, 175, 229, 174, 40, 103, 15, 17, 156, 162, 7, 46, 249, 199,
      254, 14, 192, 64, 190, 107, 30, 30, 81, 157, 200, 8, 65, 98, 66, 13, 213, 234, 22, 241,
      159, 171, 128, 121, 32, 109, 222, 220, 79]"
  by (simp add: sha_eval)

lemmas model_eval = tree_digest_def flat_digest_def incremental_digest_def digest_of_def
  zonemd_add_rr_tree_def zonemd_add_rr_flat_def zonemd_tree_add_rr_def
  zonemd_tree_get_leaf_by_owner_def zonemd_tree_branch_by_name_def char_to_uint_def
  push_rr_def new_node_def
  zonemd_calc_digest_root_def zonemd_calc_digest_flat_def zonemd_rrlist_digest_def
  write_buf_def ldns_rr_list_sort_def ldns_rdf2str_def rrsig_over_zonemd_def
  zonemd_zeroized_def ldns_rr2wire_def dname_wire_def rdata_wire_def be_bytes_eval
  ldns_rr_compare_eq_0 ldns_dname_compare_eq_0 rr_key_def dname_key_def lower_byte_def
  EVP_sha384_def replicate_numeral_eval list_update_numeral_eval Let_def

section \<open>Tree mode and flat mode\<close>

lemma add_rrs_flat: "add_rrs zonemd_add_rr_flat zone l = Inr (l @ zone)"
  by (induction zone arbitrary: l) (simp_all add: zonemd_add_rr_flat_def)

lemma tree_add_depth_0:
  "zonemd_tree_max_depth cfg = 0 \<Longrightarrow>
   zonemd_add_rr_tree cfg rr (Node rl None dg dt) =
     Inr (Node (Some ((case rl of None \<Rightarrow> [] | Some l \<Rightarrow> l) @ [rr])) None dg True)"
  by (simp add: zonemd_add_rr_tree_def zonemd_tree_add_rr_def zonemd_tree_get_leaf_by_owner_def
      push_rr_def)

lemma add_rrs_tree_depth_0:
  "zonemd_tree_max_depth cfg = 0 \<Longrightarrow> zone \<noteq> [] \<Longrightarrow>
   add_rrs (zonemd_add_rr_tree cfg) zone (Node rl None dg dt) =
     Inr (Node (Some ((case rl of None \<Rightarrow> [] | Some l \<Rightarrow> l) @ zone)) None dg True)"
proof (induction zone arbitrary: rl dt)
  case Nil
  then show ?case by simp
next
  case (Cons r zone)
  show ?case
  proof (cases "zone = []")
    case True
    then show ?thesis using Cons.prems by (simp add: tree_add_depth_0)
  next
    case False
    then show ?thesis using Cons.prems Cons.IH [OF Cons.prems(1) False]
      by (simp add: tree_add_depth_0)
  qed
qed

lemma sort_sort: "ldns_rr_list_sort (ldns_rr_list_sort l) = ldns_rr_list_sort l"
  by (simp add: ldns_rr_list_sort_def sort_key_id_if_sorted)

text \<open>
  C1 as amended. With digest type 1 (SHA-384) and tree depth 0, whatever the width, the
  digest computed in tree mode for a zone (which has at least its SOA record) is the
  digest computed in flat mode, and the two runs fail alike.
\<close>

theorem tree_depth_0_equals_flat:
  assumes "zonemd_tree_max_depth cfg = 0" and "zone \<noteq> []"
  shows "tree_digest cfg EVP_sha384 zone = flat_digest cfg EVP_sha384 zone"
proof -
  have t: "add_rrs (zonemd_add_rr_tree cfg) zone new_node =
      Inr (Node (Some zone) None (replicate EVP_MAX_MD_SIZE 0) True)"
    unfolding new_node_def using add_rrs_tree_depth_0 [OF assms] by simp
  have f: "add_rrs zonemd_add_rr_flat zone [] = Inr zone"
    by (simp add: add_rrs_flat)
  show ?thesis
    unfolding tree_digest_def flat_digest_def t f
    using assms(1)
    by (auto simp: zonemd_calc_digest_root_def zonemd_calc_digest_flat_def digest_of_def
        zonemd_rrlist_digest_def Let_def sort_sort write_buf_def EVP_sha384_def
        split: sum.splits)
qed

theorem tree_depth_0_equals_flat_witness:
  "zonemd_tree_max_depth (ex_cfg 0) = 0 \<and> [ex_soa, ex_txt] \<noteq> []
   \<and> tree_digest (ex_cfg 0) EVP_sha384 [ex_soa, ex_txt]
       = flat_digest (ex_cfg 0) EVP_sha384 [ex_soa, ex_txt]"
proof -
  have a: "zonemd_tree_max_depth (ex_cfg 0) = 0" by (simp add: ex_cfg_def)
  have b: "[ex_soa, ex_txt] \<noteq> []" by simp
  show ?thesis using a b tree_depth_0_equals_flat [OF a b] by simp
qed

lemma wire_soa: "ldns_rr2wire ex_soa = [7, 101, 120, 97, 109, 112, 108, 101, 0, 0, 6, 0, 1, 0, 0, 14, 16, 0, 30, 2, 110, 115, 0, 4, 114, 111, 111, 116, 0, 0, 0, 0, 1, 0, 0, 14, 16, 0, 0, 2, 88, 0, 1, 81, 128, 0, 0, 14, 16]"
  by (simp add: ldns_rr2wire_def dname_wire_def rdata_wire_def be_bytes_eval ex_defs)

lemma tree_soa: "tree_digest (ex_cfg 1) EVP_sha384 [ex_soa] = Inr (sha384 (sha384 (ldns_rr2wire ex_soa)))"
  by (simp add: model_eval ex_defs rr_consts)

lemma flat_soa: "flat_digest (ex_cfg 1) EVP_sha384 [ex_soa] = Inr (sha384 (ldns_rr2wire ex_soa))"
  by (simp add: model_eval ex_defs rr_consts)

text \<open>
  C1, as the claim states it, fails: with depth 1 and width 13 the root digest of the
  zone that holds the SOA record alone is the SHA-384 digest of the digest of the one
  leaf, and it differs from the flat-mode digest.
\<close>

theorem tree_differs_from_flat_counterexample:
  "tree_digest (ex_cfg 1) EVP_sha384 [ex_soa] \<noteq> flat_digest (ex_cfg 1) EVP_sha384 [ex_soa]"
  unfolding tree_soa flat_soa wire_soa sha384_soa sha384_soa_digest by simp

section \<open>Recomputing after additions\<close>

lemma wire_www: "ldns_rr2wire (ex_a ex_www 1) = [3, 119, 119, 119, 7, 101, 120, 97, 109, 112, 108, 101, 0, 0, 1, 0, 1, 0, 0, 14, 16, 0, 4, 192, 0, 2, 1]"
  by (simp add: ldns_rr2wire_def dname_wire_def rdata_wire_def be_bytes_eval ex_defs)

lemma wire_txt: "ldns_rr2wire ex_txt = [7, 101, 120, 97, 109, 112, 108, 101, 0, 0, 16, 0, 1, 0, 0, 14, 16, 0, 2, 1, 120]"
  by (simp add: ldns_rr2wire_def dname_wire_def rdata_wire_def be_bytes_eval ex_defs)

lemma incremental_txt:
  "incremental_digest (ex_cfg 1) EVP_sha384 [ex_soa, ex_a ex_www 1] [ex_txt] =
     Inr (sha384 (sha384 (sha384 (ldns_rr2wire (ex_a ex_www 1)) @ sha384 (ldns_rr2wire ex_soa))
                 @ sha384 (ldns_rr2wire ex_soa @ ldns_rr2wire ex_txt)))"
  by (simp add: model_eval ex_defs rr_consts less_prod_def)

lemma fresh_txt:
  "tree_digest (ex_cfg 1) EVP_sha384 [ex_soa, ex_a ex_www 1, ex_txt] =
     Inr (sha384 (sha384 (ldns_rr2wire (ex_a ex_www 1))
                 @ sha384 (ldns_rr2wire ex_soa @ ldns_rr2wire ex_txt)))"
  by (simp add: model_eval ex_defs rr_consts less_prod_def)

text \<open>
  C2. The claim: after records are added to a tree whose digests are computed, computing
  again gives the digest of a fresh tree loaded with all the records. The code: with
  depth 1 and width 13, load the SOA record and an address record of \<open>www.example.\<close>,
  compute, add the text record at the apex and compute again. The leaf of
  \<open>www.example.\<close> (branch 2) is clean and writes nothing, so the root feeds the bytes
  that are in its own buffer, its digest of the first computation, in place of the
  digest of that leaf; the result differs from the digest of the fresh tree.
\<close>

theorem incremental_differs_from_fresh:
  "incremental_digest (ex_cfg 1) EVP_sha384 [ex_soa, ex_a ex_www 1] [ex_txt]
     \<noteq> tree_digest (ex_cfg 1) EVP_sha384 [ex_soa, ex_a ex_www 1, ex_txt]"
  unfolding incremental_txt fresh_txt wire_www wire_soa wire_txt append_Cons append_Nil
    sha384_www sha384_soa sha384_soa_txt sha384_root sha384_stale sha384_fresh
  by simp

section \<open>A duplicate added after a computation\<close>

lemma wire_mail: "ldns_rr2wire (ex_a ex_mail 1) = [4, 109, 97, 105, 108, 7, 101, 120, 97, 109, 112, 108, 101, 0, 0, 1, 0, 1, 0, 0, 14, 16, 0, 4, 192, 0, 2, 1]"
  by (simp add: ldns_rr2wire_def dname_wire_def rdata_wire_def be_bytes_eval ex_defs)

lemma tree_three_leaves:
  "tree_digest (ex_cfg 1) EVP_sha384 [ex_soa, ex_a ex_www 1, ex_a ex_mail 1] =
     Inr (sha384 (sha384 (ldns_rr2wire (ex_a ex_www 1)) @ sha384 (ldns_rr2wire (ex_a ex_mail 1))
                 @ sha384 (ldns_rr2wire ex_soa)))"
  by (simp add: model_eval ex_defs rr_consts less_prod_def)

lemma incremental_duplicate:
  "incremental_digest (ex_cfg 1) EVP_sha384 [ex_soa, ex_a ex_www 1, ex_a ex_mail 1]
     [ex_a ex_www 1] =
     Inr (sha384 (sha384 (ldns_rr2wire (ex_a ex_www 1)) @ sha384 (ldns_rr2wire (ex_a ex_www 1))
                 @ sha384 (ldns_rr2wire (ex_a ex_www 1))))"
  by (simp add: model_eval ex_defs rr_consts less_prod_def)

lemma fresh_duplicate:
  "tree_digest (ex_cfg 1) EVP_sha384 [ex_soa, ex_a ex_www 1, ex_a ex_mail 1, ex_a ex_www 1] =
     Inr (sha384 (sha384 (ldns_rr2wire (ex_a ex_www 1)) @ sha384 (ldns_rr2wire (ex_a ex_mail 1))
                 @ sha384 (ldns_rr2wire ex_soa)))"
  by (simp add: model_eval ex_defs rr_consts less_prod_def)

text \<open>
  C6. The claim: adding to the store a copy of a record that is in it does not change
  the digest. The code, with \<open>ZONEMD_INCREMENTAL\<close>, depth 1 and width 13: load the SOA
  record and the address records of \<open>www.example.\<close> and \<open>mail.example.\<close>, compute,
  add a copy of the address record of \<open>www.example.\<close> and compute again. The leaf of
  \<open>www.example.\<close> (branch 2) is computed again, the copy is skipped there, and its
  digest is the one of before; the leaves of \<open>mail.example.\<close> (branch 5) and of the
  apex (branch 10) are clean and write nothing, so the root feeds the digest of the
  first leaf three times. The digest differs from the one before the addition, which
  is also the digest of a fresh tree loaded with the four records.
\<close>

theorem duplicate_changes_tree_digest:
  "ex_a ex_www 1 \<in> set [ex_soa, ex_a ex_www 1, ex_a ex_mail 1]
   \<and> tree_digest (ex_cfg 1) EVP_sha384 [ex_soa, ex_a ex_www 1, ex_a ex_mail 1, ex_a ex_www 1]
     = tree_digest (ex_cfg 1) EVP_sha384 [ex_soa, ex_a ex_www 1, ex_a ex_mail 1]
   \<and> incremental_digest (ex_cfg 1) EVP_sha384 [ex_soa, ex_a ex_www 1, ex_a ex_mail 1]
        [ex_a ex_www 1]
     \<noteq> tree_digest (ex_cfg 1) EVP_sha384 [ex_soa, ex_a ex_www 1, ex_a ex_mail 1]"
proof -
  have "incremental_digest (ex_cfg 1) EVP_sha384 [ex_soa, ex_a ex_www 1, ex_a ex_mail 1]
        [ex_a ex_www 1]
     \<noteq> tree_digest (ex_cfg 1) EVP_sha384 [ex_soa, ex_a ex_www 1, ex_a ex_mail 1]"
    unfolding incremental_duplicate tree_three_leaves wire_www wire_mail wire_soa
      sha384_www sha384_mail sha384_soa append_Cons append_Nil
      sha384_www_www_www sha384_www_mail_soa
    by simp
  then show ?thesis
    unfolding fresh_duplicate tree_three_leaves by simp
qed

section \<open>Signatures over ZONEMD in tree mode\<close>



section \<open>The digest buffer of a clean node\<close>

lemma load_soa:
  "add_rrs (zonemd_add_rr_tree (ex_cfg 1)) [ex_soa] new_node = Inr (ex_root (replicate 64 0) True)"
  by (simp add: model_eval ex_defs rr_consts ex_leaf_def ex_root_def)

lemma calc_leaf:
  "zonemd_calc_digest_tree (ex_cfg 1) EVP_sha384 1 (ex_leaf True)
     = Inr (ex_leaf False, Some (sha384 (ldns_rr2wire ex_soa)), [])"
  by (simp add: model_eval ex_defs rr_consts ex_leaf_def)

lemma calc_root:
  "zonemd_calc_digest_root (ex_cfg 1) EVP_sha384 (ex_root (replicate 64 0) True)
     = Inr (ex_root (sha384 (sha384 (ldns_rr2wire ex_soa)) @ replicate 16 0) False,
            sha384 (sha384 (ldns_rr2wire ex_soa)), [])"
  by (simp add: model_eval ex_defs rr_consts ex_leaf_def ex_root_def)

text \<open>
  C3. The claim: a node that is not dirty holds the hash of its subtree in its digest
  buffer, and the computation delivers that digest when it reaches the node. The code,
  on the tree of depth 1 that holds the SOA record: computing the root digest leaves
  the leaf clean with a digest buffer of 64 zero bytes, which is not the hash that
  computing the leaf gives; and the computation on the clean leaf returns without
  writing anything.
\<close>

theorem clean_leaf_digest_not_cached:
  "add_rrs (zonemd_add_rr_tree (ex_cfg 1)) [ex_soa] new_node = Inr (ex_root (replicate 64 0) True)
   \<and> zonemd_calc_digest_root (ex_cfg 1) EVP_sha384 (ex_root (replicate 64 0) True)
       = Inr (ex_root ([254, 58, 74, 42, 58, 150, 126, 241, 171, 245, 134, 45, 157, 154, 145, 10, 58, 219, 255, 103, 105, 205, 246, 103, 93, 157, 22, 70, 34, 160, 57, 253, 183, 198, 86, 186, 186, 179, 175, 146, 58, 153, 208, 120, 245, 37, 174, 13] @ replicate 16 0) False,
              [254, 58, 74, 42, 58, 150, 126, 241, 171, 245, 134, 45, 157, 154, 145, 10, 58, 219, 255, 103, 105, 205, 246, 103, 93, 157, 22, 70, 34, 160, 57, 253, 183, 198, 86, 186, 186, 179, 175, 146, 58, 153, 208, 120, 245, 37, 174, 13], [])
   \<and> zonemd_calc_digest_tree (ex_cfg 1) EVP_sha384 1 (ex_leaf True)
       = Inr (ex_leaf False, Some [98, 194, 213, 226, 3, 51, 127, 16, 56, 64, 96, 231, 248, 239, 134, 72, 228, 115, 139, 124, 223, 247, 38, 72, 227, 3, 73, 232, 8, 251, 3, 170, 92, 213, 103, 80, 145, 175, 214, 222, 144, 97, 72, 124, 56, 135, 251, 6], [])
   \<and> zonemd_calc_digest_tree (ex_cfg 1) EVP_sha384 1 (ex_leaf False) = Inr (ex_leaf False, None, [])
   \<and> digest (ex_leaf False) = replicate 64 0
   \<and> take 48 (digest (ex_leaf False)) \<noteq> [98, 194, 213, 226, 3, 51, 127, 16, 56, 64, 96, 231, 248, 239, 134, 72, 228, 115, 139, 124, 223, 247, 38, 72, 227, 3, 73, 232, 8, 251, 3, 170, 92, 213, 103, 80, 145, 175, 214, 222, 144, 97, 72, 124, 56, 135, 251, 6]"
proof -
  have c: "zonemd_calc_digest_tree (ex_cfg 1) EVP_sha384 1 (ex_leaf False)
      = Inr (ex_leaf False, None, [])"
    by (simp add: ex_leaf_def)
  have d: "digest (ex_leaf False) = replicate 64 0"
    by (simp add: ex_leaf_def)
  have n: "take 48 (replicate 64 (0::nat)) \<noteq> [98, 194, 213, 226, 3, 51, 127, 16, 56, 64, 96, 231, 248, 239, 134, 72, 228, 115, 139, 124, 223, 247, 38, 72, 227, 3, 73, 232, 8, 251, 3, 170, 92, 213, 103, 80, 145, 175, 214, 222, 144, 97, 72, 124, 56, 135, 251, 6]"
    by (simp add: replicate_numeral_eval)
  show ?thesis
    unfolding load_soa calc_root calc_leaf wire_soa sha384_soa sha384_soa_digest c d
    using n by simp
qed

section \<open>Two ZONEMD records at the apex\<close>

lemma wire_zonemd: "ldns_rr2wire (ex_zonemd 1 (replicate 48 0)) = [7, 101, 120, 97, 109, 112, 108, 101, 0, 0, 63, 0, 1, 0, 0, 14, 16, 0, 54, 0, 0, 0, 1, 1, 0, 0, 0, 0, 0, 0, 0, 0, 0, 0, 0, 0, 0, 0, 0, 0, 0, 0, 0, 0, 0, 0, 0, 0, 0, 0, 0, 0, 0, 0, 0, 0, 0, 0, 0, 0, 0, 0, 0, 0, 0, 0, 0, 0, 0, 0, 0, 0, 0]"
  by (simp add: ldns_rr2wire_def dname_wire_def rdata_wire_def be_bytes_eval
      replicate_numeral_eval ex_defs)

lemma two_zonemd_distinct:
  "digest_of (zonemd_calc_digest_flat (ex_cfg 0) EVP_sha384
     [ex_soa, ex_zonemd 1 (replicate 48 0), ex_zonemd 1 (replicate 48 255)])
   = Inr (sha384 (ldns_rr2wire ex_soa @ ldns_rr2wire (ex_zonemd 1 (replicate 48 0))
                   @ ldns_rr2wire (ex_zonemd 1 (replicate 48 0))))"
  by (simp add: model_eval zonemd_rr_update_digest_def zonemd_rr_unpack_def zonemd_rr_pack_def
      zonemd_digester_def ldns_rr_rdf_def ldns_rdf2native_int32_def ldns_rdf2native_int8_def
      uimin_def ex_defs rr_consts)

lemma two_zonemd_equal:
  "digest_of (zonemd_calc_digest_flat (ex_cfg 0) EVP_sha384
     [ex_soa, ex_zonemd 1 (replicate 48 0), ex_zonemd 1 (replicate 48 0)])
   = Inr (sha384 (ldns_rr2wire ex_soa @ ldns_rr2wire (ex_zonemd 1 (replicate 48 0))))"
  by (simp add: model_eval zonemd_rr_update_digest_def zonemd_rr_unpack_def zonemd_rr_pack_def
      zonemd_digester_def ldns_rr_rdf_def ldns_rdf2native_int32_def ldns_rdf2native_int8_def
      uimin_def ex_defs rr_consts)

text \<open>
  C4, as the claim states it, fails: in a zone with two apex ZONEMD records of digest
  type 1 and the same serial, setting the digest bytes of one to those of the other
  makes the two compare equal, the second is skipped as a duplicate, and the digest
  changes.
\<close>

theorem zonemd_digest_bytes_counterexample:
  "is_apex_zonemd (ex_cfg 0) (ex_zonemd 1 (replicate 48 255))
   \<and> zonemd_rr_update_digest (ex_cfg 0) (ex_zonemd 1 (replicate 48 255)) 1
        (Some (replicate 48 0)) 48 = Inr (ex_zonemd 1 (replicate 48 0))
   \<and> digest_of (zonemd_calc_digest_flat (ex_cfg 0) EVP_sha384
        [ex_soa, ex_zonemd 1 (replicate 48 0), ex_zonemd 1 (replicate 48 0)])
     \<noteq> digest_of (zonemd_calc_digest_flat (ex_cfg 0) EVP_sha384
        [ex_soa, ex_zonemd 1 (replicate 48 0), ex_zonemd 1 (replicate 48 255)])"
proof -
  have a: "is_apex_zonemd (ex_cfg 0) (ex_zonemd 1 (replicate 48 255))"
    by (simp add: is_apex_zonemd_def ldns_dname_compare_eq_0 ex_defs rr_consts)
  have b: "zonemd_rr_update_digest (ex_cfg 0) (ex_zonemd 1 (replicate 48 255)) 1
        (Some (replicate 48 0)) 48 = Inr (ex_zonemd 1 (replicate 48 0))"
    by (simp add: zonemd_rr_update_digest_def zonemd_rr_unpack_def zonemd_rr_pack_def
        ldns_rr_rdf_def ldns_rdf2native_int32_def ldns_rdf2native_int8_def uimin_def
        be_bytes_eval ex_defs rr_consts)
  have c: "digest_of (zonemd_calc_digest_flat (ex_cfg 0) EVP_sha384
        [ex_soa, ex_zonemd 1 (replicate 48 0), ex_zonemd 1 (replicate 48 0)])
     \<noteq> digest_of (zonemd_calc_digest_flat (ex_cfg 0) EVP_sha384
        [ex_soa, ex_zonemd 1 (replicate 48 0), ex_zonemd 1 (replicate 48 255)])"
    unfolding two_zonemd_distinct two_zonemd_equal wire_soa wire_zonemd append_Cons append_Nil
      sha384_soa_zonemd sha384_soa_zonemd_zonemd
    by simp
  from a b c show ?thesis by simp
qed

section \<open>Verify and an unsupported digest type\<close>

lemma calc_flat_sorted:
  assumes "digest_of (zonemd_calc_digest_flat cfg md l) = Inr computed"
  shows "\<exists>w. zonemd_calc_digest_flat cfg md l = Inr (ldns_rr_list_sort l, computed, w)"
    and "digest_of (zonemd_calc_digest_flat cfg md (ldns_rr_list_sort l)) = Inr computed"
  using assms
  by (auto simp: digest_of_def zonemd_calc_digest_flat_def zonemd_rrlist_digest_def Let_def
      sort_sort split: sum.splits)








subsection \<open>A stored digest that is too short\<close>

lemma length_ex_short_digest: "length ex_short_digest = 48"
  by (simp add: ex_short_digest_def)

lemma ex_short_zone_digest:
  "digest_of (zonemd_calc_digest_flat (ex_cfg 0) EVP_sha384 ex_short_zone) = Inr ex_short_digest"
  unfolding ex_short_digest_def ex_short_zone_def
  by (simp add: model_eval zonemd_rr_update_digest_def zonemd_rr_unpack_def zonemd_rr_pack_def
      zonemd_digester_def ldns_rr_rdf_def ldns_rdf2native_int32_def ldns_rdf2native_int8_def
      uimin_def ex_defs rr_consts numeral_2_eq_2 [symmetric])

text \<open>
  A stored digest that is shorter than the digest computed. The record of digest type 1
  stores no digest bytes: verify compares the 48 bytes that \<open>found_digest_buf\<close> holds
  from the record before it, which here are the digest of the zone, reports a match,
  and the exit status is 0.
\<close>

lemma short_digest_reads_buffer:
  "zonemd_rr_unpack (ex_cfg 0) (ex_zonemd 1 []) EVP_MAX_MD_SIZE = Inr (1, 1, [])
   \<and> \<not> zonemd_full_length (ex_cfg 0) (ex_zonemd 1 [])
   \<and> do_verify (ex_cfg 0) ex_soa ex_short_zone (replicate 64 0)
       = Inr (ldns_rr_list_sort ex_short_zone, 0, [UnsupportedDigestType 2, DigestMatch 1])
   \<and> main_exit_status True (ex_cfg 0) ex_soa ex_short_zone (replicate 64 0) = Inr 0"
proof -
  have s: "soa_serial ex_soa = Inr 1"
    by (simp add: soa_serial_def ldns_rr_rdf_def ldns_rdf2native_int32_def ex_defs)
  have f: "filter (is_apex_zonemd (ex_cfg 0)) ex_short_zone
       = [ex_zonemd 2 ex_short_digest, ex_zonemd 1 []]"
    by (simp add: ex_short_zone_def is_apex_zonemd_def ldns_dname_compare_eq_0 ex_defs rr_consts)
  have u2: "zonemd_rr_unpack (ex_cfg 0) (ex_zonemd 2 ex_short_digest) EVP_MAX_MD_SIZE
       = Inr (1, 2, ex_short_digest)"
    by (simp add: zonemd_rr_unpack_def ldns_rr_rdf_def ldns_rdf2native_int32_def
        ldns_rdf2native_int8_def uimin_def length_ex_short_digest ex_defs rr_consts)
  have u1: "zonemd_rr_unpack (ex_cfg 0) (ex_zonemd 1 []) EVP_MAX_MD_SIZE = Inr (1, 1, [])"
    by (simp add: zonemd_rr_unpack_def ldns_rr_rdf_def ldns_rdf2native_int32_def
        ldns_rdf2native_int8_def uimin_def ex_defs rr_consts)
  have n: "\<not> zonemd_full_length (ex_cfg 0) (ex_zonemd 1 [])"
    using u1 by (simp add: zonemd_full_length_def zonemd_digester_def EVP_sha384_def)
  obtain w where
    c: "zonemd_calc_digest_flat (ex_cfg 0) EVP_sha384 ex_short_zone
          = Inr (ldns_rr_list_sort ex_short_zone, ex_short_digest, w)"
    using calc_flat_sorted(1) [OF ex_short_zone_digest] by blast
  have v: "do_verify (ex_cfg 0) ex_soa ex_short_zone (replicate 64 0)
       = Inr (ldns_rr_list_sort ex_short_zone, 0, [UnsupportedDigestType 2, DigestMatch 1])"
    unfolding do_verify_def zonemd_rr_find_def f
    using s u1 u2 c
    by (simp add: zonemd_digester_def write_buf_def EVP_sha384_def length_ex_short_digest)
  show ?thesis
    using u1 n v by (simp add: main_exit_status_def)
qed

end
